theory Spec2Isabelle
  imports Main "HOL-Library.Word"
begin

unbundle bit_operations_syntax

section \<open>Data model of the MSF60 decoder (MSF60decode.h, MSF60decode.c)\<close>

type_synonym u8 = "8 word"
type_synonym u32 = "32 word"

text \<open>
  \<^verbatim>\<open>#define PULSE_MARGIN 30\<close>, \<^verbatim>\<open>#define CARRIER_ON 0\<close>, \<^verbatim>\<open>#define CARRIER_OFF 1\<close>.
\<close>

definition PULSE_MARGIN :: int where
  "PULSE_MARGIN = 30"

definition CARRIER_ON :: u32 where
  "CARRIER_ON = 0"

definition CARRIER_OFF :: u32 where
  "CARRIER_OFF = 1"

text \<open>
  The enum \<^verbatim>\<open>eWidth\<close>, and for each enumerator but \<^verbatim>\<open>eWidth_INVALID\<close> the length in
  milliseconds it names (a hundred times its value in the enum).
\<close>

datatype eWidth =
    eWidth_100 | eWidth_200 | eWidth_300 | eWidth_500
  | eWidth_700 | eWidth_800 | eWidth_900 | eWidth_INVALID

fun nominal_ms :: "eWidth \<Rightarrow> int option" where
  "nominal_ms eWidth_100 = Some 100"
| "nominal_ms eWidth_200 = Some 200"
| "nominal_ms eWidth_300 = Some 300"
| "nominal_ms eWidth_500 = Some 500"
| "nominal_ms eWidth_700 = Some 700"
| "nominal_ms eWidth_800 = Some 800"
| "nominal_ms eWidth_900 = Some 900"
| "nominal_ms eWidth_INVALID = None"

text \<open>The struct \<^verbatim>\<open>sMSFDateTime\<close> of MSF60decode.h, field by field.\<close>

record sMSFDateTime =
  bHasValidTime :: bool
  bDateTimeUpdated :: bool
  Year :: u8
  Month :: u8
  Day :: u8
  Hour :: u8
  Minute :: u8
  DOW :: u8
  DST :: u8

text \<open>What \<^verbatim>\<open>memset(pdata, 0, sizeof(sMSFDateTime))\<close> and the initialiser \<^verbatim>\<open>{ 0 }\<close> leave.\<close>

definition zero_DateTime :: sMSFDateTime where
  "zero_DateTime =
     \<lparr>bHasValidTime = False, bDateTimeUpdated = False, Year = 0, Month = 0, Day = 0,
      Hour = 0, Minute = 0, DOW = 0, DST = 0\<rparr>"

text \<open>The enum \<^verbatim>\<open>eMSFEventType\<close> with its mask bits 0x0001, 0x0002, 0x0004.\<close>

datatype eMSFEventType = MSF_EVENT_SYNC | MSF_EVENT_SYNC_LOST | MSF_EVENT_DATETIME_UPDATED

fun event_bits :: "eMSFEventType \<Rightarrow> u32" where
  "event_bits MSF_EVENT_SYNC = 1"
| "event_bits MSF_EVENT_SYNC_LOST = 2"
| "event_bits MSF_EVENT_DATETIME_UPDATED = 4"

text \<open>
  A run of the C code has no defined continuation in two situations that the model keeps
  as values: a write through a byte index past the end of a bit array (\<open>OutOfBounds\<close>,
  with the byte index), and a call of \<^verbatim>\<open>ExtractBCD\<close> that has no defined result
  (\<open>NoExtractResult\<close>).
\<close>

datatype fault = OutOfBounds nat | NoExtractResult

definition bind_fault :: "fault + 'a \<Rightarrow> ('a \<Rightarrow> fault + 'b) \<Rightarrow> fault + 'b" where
  "bind_fault r f = (case r of Inl e \<Rightarrow> Inl e | Inr x \<Rightarrow> f x)"

text \<open>
  The file-scope statics of MSF60decode.c, the function-local statics of
  \<^verbatim>\<open>HandleCarrierEvent\<close>, and the two things outside the decoder it acts on: the
  caller-owned memory that \<^verbatim>\<open>pClientDateTime\<close> points into (\<open>client_mem\<close>, by address)
  and the calls made to the client's callback (\<open>callback_calls\<close>, oldest first).
  A null pointer is \<open>None\<close>. The cursor \<^verbatim>\<open>nBitNum\<close> is an \<^verbatim>\<open>unsigned\<close>; it is
  only ever incremented after a write at its old index went through, so it stays far
  below \<open>2 ^ 32\<close> and is kept as a natural number.
\<close>

record decoder =
  bSyncedFlag :: bool
  A_bits :: "u8 list"
  B_bits :: "u8 list"
  LocalDateTime :: sMSFDateTime
  pClientDateTime :: "nat option"
  pfClientEventCallback :: "nat option"
  ui32ClientEventMask :: u32
  T_LastOnStart :: u32
  T_LastOffStart :: u32
  eLastOnWidth :: eWidth
  eLastOffWidth :: eWidth
  T_CellStart :: u32
  nBitNum :: nat
  bHalfSync :: bool
  bResyncNeeded :: bool
  client_mem :: "nat \<Rightarrow> sMSFDateTime"
  callback_calls :: "eMSFEventType list"

section \<open>PulseClassifier: GetWidth\<close>

text \<open>
  \<^verbatim>\<open>abs(width-100) < PULSE_MARGIN\<close>: \<^verbatim>\<open>width\<close> is a \<^verbatim>\<open>uint32_t\<close>, so the difference is
  taken modulo \<open>2 ^ 32\<close>; \<^verbatim>\<open>abs\<close> takes an \<^verbatim>\<open>int\<close>, so the difference is read as a
  two's complement number (\<open>sint\<close>). \<^verbatim>\<open>abs\<close> is the library's: it negates a negative
  argument, in 32 bits. C leaves \<^verbatim>\<open>abs(INT_MIN)\<close> undefined (a difference of exactly
  \<open>2 ^ 31\<close>); the negation wraps there and the usual implementation returns
  \<^verbatim>\<open>INT_MIN\<close>, as the model does.
\<close>

definition c_abs :: "u32 \<Rightarrow> int" where
  "c_abs j = (if sint j < 0 then sint (- j) else sint j)"

definition GetWidth :: "u32 \<Rightarrow> eWidth" where
  "GetWidth width =
     (if c_abs (width - 100) < PULSE_MARGIN then eWidth_100
      else if c_abs (width - 200) < PULSE_MARGIN then eWidth_200
      else if c_abs (width - 300) < PULSE_MARGIN then eWidth_300
      else if c_abs (width - 500) < PULSE_MARGIN then eWidth_500
      else if c_abs (width - 700) < PULSE_MARGIN then eWidth_700
      else if c_abs (width - 800) < PULSE_MARGIN then eWidth_800
      else if c_abs (width - 900) < PULSE_MARGIN then eWidth_900
      else eWidth_INVALID)"

section \<open>EventNotifier: ClientEventNotify\<close>

text \<open>
  The callback is client code; the model records each call made to it. It is called iff
  a callback is registered and the event's bit is set in the mask.
\<close>

definition ClientEventNotify :: "eMSFEventType \<Rightarrow> decoder \<Rightarrow> decoder" where
  "ClientEventNotify ev s =
     (if pfClientEventCallback s \<noteq> None \<and> (ui32ClientEventMask s AND event_bits ev) \<noteq> 0
      then s\<lparr>callback_calls := callback_calls s @ [ev]\<rparr>
      else s)"

section \<open>BitFrame: setBit and getBit\<close>

text \<open>
  \<^verbatim>\<open>uint8_t mask = 1 << (bitnum & 0x7)\<close> and the byte \<^verbatim>\<open>bitarray[bitnum>>3]\<close>. A write
  through a byte index past the end of the array is the fault \<open>OutOfBounds\<close>. Every read
  the decoder makes is at a constant bit number below 64.
\<close>

definition setBit :: "u8 list \<Rightarrow> nat \<Rightarrow> bool \<Rightarrow> fault + u8 list" where
  "setBit bitarray bitnum bSet =
     (let mask = push_bit (bitnum AND 7) (1 :: u8) in
      if drop_bit 3 bitnum < length bitarray then
        (if bSet
         then Inr (bitarray[drop_bit 3 bitnum := (bitarray ! drop_bit 3 bitnum) OR mask])
         else Inr (bitarray[drop_bit 3 bitnum := (bitarray ! drop_bit 3 bitnum) AND NOT mask]))
      else Inl (OutOfBounds (drop_bit 3 bitnum)))"

definition getBit :: "u8 list \<Rightarrow> nat \<Rightarrow> bool" where
  "getBit bitarray bitnum =
     (let mask = push_bit (bitnum AND 7) (1 :: u8) in
      ((bitarray ! drop_bit 3 bitnum) AND mask) \<noteq> 0)"

section \<open>BcdExtractor: ExtractBCD\<close>

definition BCD :: "u8 list" where
  "BCD = [1, 2, 4, 8, 10, 20, 40, 80]"

text \<open>
  The loop \<^verbatim>\<open>for( bit = lsbit; bit >= msbit; bit--, digit++ )\<close> over \<^verbatim>\<open>uint8_t\<close>
  counters (the variable \<^verbatim>\<open>bit\<close> is \<open>b\<close> here). With \<open>msbit = 0\<close> the test never fails
  and \<open>b\<close> wraps from 0 to 255, so the loop is a partial function: \<open>None\<close> is a call
  with no defined result, because it never returns or because it reads \<^verbatim>\<open>BCD[digit]\<close>
  past the eighth weight.
\<close>

partial_function (option) ExtractBCD_loop ::
  "u8 list \<Rightarrow> u8 \<Rightarrow> u8 \<Rightarrow> u8 \<Rightarrow> u8 \<Rightarrow> u8 option" where
  "ExtractBCD_loop bitarray msbit b digit result =
     (if msbit \<le> b then
        (if getBit bitarray (unat b) then
           (if unat digit < length BCD
            then ExtractBCD_loop bitarray msbit (b - 1) (digit + 1) (result + BCD ! unat digit)
            else None)
         else ExtractBCD_loop bitarray msbit (b - 1) (digit + 1) result)
      else Some result)"

declare ExtractBCD_loop.simps [code]

definition ExtractBCD :: "u8 list \<Rightarrow> u8 \<Rightarrow> u8 \<Rightarrow> u8 option" where
  "ExtractBCD bitarray msbit lsbit = ExtractBCD_loop bitarray msbit lsbit 0 0"

section \<open>FrameValidator: CheckOddParity and ValidateBCD\<close>

text \<open>
  \<^verbatim>\<open>for (bitnum = from ; bitnum <= to ; bitnum++)\<close>; every call passes constants between
  17 and 51, so the counters are natural numbers.
\<close>

function CheckOddParity_loop :: "u8 list \<Rightarrow> nat \<Rightarrow> nat \<Rightarrow> nat \<Rightarrow> nat" where
  "CheckOddParity_loop bitarray to bitnum numset =
     (if bitnum \<le> to
      then CheckOddParity_loop bitarray to (bitnum + 1)
             (if getBit bitarray bitnum then numset + 1 else numset)
      else numset)"
  by pat_completeness auto
termination
  by (relation "measure (\<lambda>(bitarray, to, bitnum, numset). Suc to - bitnum)") auto

definition CheckOddParity :: "u8 list \<Rightarrow> nat \<Rightarrow> nat \<Rightarrow> bool \<Rightarrow> bool" where
  "CheckOddParity bitarray from to parity =
     (let numset = CheckOddParity_loop bitarray to from 0;
          numset = (if parity then numset + 1 else numset)
      in (if (numset AND 1) \<noteq> 0 then True else False))"

text \<open>The messages \<^verbatim>\<open>ValidateBCD\<close> passes to \<^verbatim>\<open>LOGprintf(LOG_BCD_ERROR, ...)\<close>.\<close>

datatype bcd_error =
    A52_not_zero | A_not_set nat | A59_not_zero
  | Parity_A17_A24_B54 | Parity_A25_A35_B55 | Parity_A36_A38_B56 | Parity_A39_A51_B57

text \<open>
  \<^verbatim>\<open>for(bitnum=53 ; bitnum<=58 ; bitnum++)\<close>: \<open>Some bitnum\<close> is the early
  \<^verbatim>\<open>return false\<close> at the first clear bit, \<open>None\<close> the end of the loop.
\<close>

function ValidateBCD_loop :: "u8 list \<Rightarrow> nat \<Rightarrow> nat option" where
  "ValidateBCD_loop bitarray bitnum =
     (if bitnum \<le> 58
      then (if \<not> getBit bitarray bitnum then Some bitnum
            else ValidateBCD_loop bitarray (bitnum + 1))
      else None)"
  by pat_completeness auto
termination
  by (relation "measure (\<lambda>(bitarray, bitnum). 59 - bitnum)") auto

text \<open>The result is the returned \<^verbatim>\<open>bool\<close> and the message logged on the way, if any.\<close>

definition ValidateBCD :: "u8 list \<Rightarrow> u8 list \<Rightarrow> bool \<times> bcd_error option" where
  "ValidateBCD A B =
     (if getBit A 52 then (False, Some A52_not_zero)
      else case ValidateBCD_loop A 53 of
        Some bitnum \<Rightarrow> (False, Some (A_not_set bitnum))
      | None \<Rightarrow>
         (if getBit A 59 then (False, Some A59_not_zero)
          else if \<not> CheckOddParity A 17 24 (getBit B 54) then (False, Some Parity_A17_A24_B54)
          else if \<not> CheckOddParity A 25 35 (getBit B 55) then (False, Some Parity_A25_A35_B55)
          else if \<not> CheckOddParity A 36 38 (getBit B 56) then (False, Some Parity_A36_A38_B56)
          else if \<not> CheckOddParity A 39 51 (getBit B 57) then (False, Some Parity_A39_A51_B57)
          else (True, None)))"

section \<open>FrameDecoder: DecodeFrame\<close>

definition ExtractBCD_call :: "u8 list \<Rightarrow> u8 \<Rightarrow> u8 \<Rightarrow> fault + u8" where
  "ExtractBCD_call bitarray msbit lsbit =
     (case ExtractBCD bitarray msbit lsbit of None \<Rightarrow> Inl NoExtractResult | Some v \<Rightarrow> Inr v)"

text \<open>
  The seven assignments to \<^verbatim>\<open>LocalDateTime\<close>, in the order of the source, then the two
  flags, the copy \<^verbatim>\<open>*pClientDateTime = LocalDateTime\<close> and the notification. The result
  is the returned \<^verbatim>\<open>bFrameValid\<close> with the state left behind.
\<close>

definition DecodeFrame :: "decoder \<Rightarrow> fault + (bool \<times> decoder)" where
  "DecodeFrame s =
     (let bFrameValid = fst (ValidateBCD (A_bits s) (B_bits s)) in
      if bFrameValid = True then
        bind_fault (ExtractBCD_call (A_bits s) 17 24) (\<lambda>year.
        bind_fault (ExtractBCD_call (A_bits s) 25 29) (\<lambda>month.
        bind_fault (ExtractBCD_call (A_bits s) 30 35) (\<lambda>day.
        bind_fault (ExtractBCD_call (A_bits s) 36 38) (\<lambda>dow.
        bind_fault (ExtractBCD_call (A_bits s) 39 44) (\<lambda>hour.
        bind_fault (ExtractBCD_call (A_bits s) 45 51) (\<lambda>minute.
        bind_fault (ExtractBCD_call (B_bits s) 58 58) (\<lambda>dst.
          let s1 = s\<lparr>LocalDateTime := (LocalDateTime s)
                     \<lparr>Year := year, Month := month, Day := day, DOW := dow, Hour := hour,
                      Minute := minute, DST := dst,
                      bHasValidTime := True, bDateTimeUpdated := True\<rparr>\<rparr>;
              s2 = (case pClientDateTime s1 of
                      Some p \<Rightarrow>
                        if bHasValidTime (LocalDateTime s1)
                        then s1\<lparr>client_mem := (client_mem s1)(p := LocalDateTime s1)\<rparr>
                        else s1
                    | None \<Rightarrow> s1)
          in Inr (bFrameValid, ClientEventNotify MSF_EVENT_DATETIME_UPDATED s2))))))))
      else Inr (bFrameValid, s))"

section \<open>SyncEngine: HandleCarrierEvent\<close>

text \<open>\<^verbatim>\<open>setBit(A_bits, nBitNum, v)\<close> and \<^verbatim>\<open>setBit(B_bits, nBitNum, v)\<close> on the state.\<close>

definition setBit_A :: "bool \<Rightarrow> decoder \<Rightarrow> fault + decoder" where
  "setBit_A bSet s =
     bind_fault (setBit (A_bits s) (nBitNum s) bSet) (\<lambda>a. Inr (s\<lparr>A_bits := a\<rparr>))"

definition setBit_B :: "bool \<Rightarrow> decoder \<Rightarrow> fault + decoder" where
  "setBit_B bSet s =
     bind_fault (setBit (B_bits s) (nBitNum s) bSet) (\<lambda>b. Inr (s\<lparr>B_bits := b\<rparr>))"

text \<open>
  \<^verbatim>\<open>case CARRIER_OFF\<close> (source lines 522 to 601). \<^verbatim>\<open>setBit(B_bits, nBitNum++, v)\<close>
  writes at the old cursor and then advances it.
\<close>

definition HandleCarrierEvent_OFF :: "decoder \<Rightarrow> u32 \<Rightarrow> fault + decoder" where
  "HandleCarrierEvent_OFF s event_time =
     (let s = s\<lparr>T_LastOffStart := event_time,
                eLastOnWidth := GetWidth (event_time - T_LastOnStart s)\<rparr>;
          s = (if bSyncedFlag s = False then s\<lparr>T_CellStart := T_LastOffStart s\<rparr> else s)
      in case eLastOnWidth s of
        eWidth_500 \<Rightarrow>
          if bHalfSync s = True then
            (let s = ClientEventNotify MSF_EVENT_SYNC s;
                 s = s\<lparr>bSyncedFlag := True\<rparr>;
                 s = s\<lparr>T_CellStart := T_LastOffStart s\<rparr>
             in bind_fault
                  (if nBitNum s = 60
                   then bind_fault (DecodeFrame s)
                          (\<lambda>(ok, s). Inr (s\<lparr>bResyncNeeded := \<not> ok\<rparr>))
                   else Inr s)
                  (\<lambda>s. Inr (s\<lparr>nBitNum := 1\<rparr>)))
          else Inr (s\<lparr>bResyncNeeded := True\<rparr>)
      | eWidth_900 \<Rightarrow>
          if \<not> bSyncedFlag s then Inr s
          else bind_fault (setBit_A False s) (\<lambda>s.
               bind_fault (setBit_B False s) (\<lambda>s.
               let s = s\<lparr>nBitNum := nBitNum s + 1\<rparr>
               in Inr (s\<lparr>T_CellStart := T_LastOffStart s\<rparr>)))
      | eWidth_800 \<Rightarrow>
          if \<not> bSyncedFlag s then Inr s
          else bind_fault (setBit_A True s) (\<lambda>s.
               bind_fault (setBit_B False s) (\<lambda>s.
               let s = s\<lparr>nBitNum := nBitNum s + 1\<rparr>
               in Inr (s\<lparr>T_CellStart := T_LastOffStart s\<rparr>)))
      | eWidth_700 \<Rightarrow>
          if \<not> bSyncedFlag s then Inr s
          else bind_fault (setBit_B True s) (\<lambda>s.
               let s = s\<lparr>nBitNum := nBitNum s + 1\<rparr>
               in Inr (s\<lparr>T_CellStart := T_LastOffStart s\<rparr>))
      | eWidth_100 \<Rightarrow>
          if \<not> bSyncedFlag s then Inr s
          else if GetWidth (event_time - T_CellStart s) = eWidth_200 then
               bind_fault (setBit_A False s) (\<lambda>s.
               bind_fault (setBit_B True s) (\<lambda>s.
               Inr (s\<lparr>nBitNum := nBitNum s + 1\<rparr>)))
          else Inr (s\<lparr>bResyncNeeded := True\<rparr>)
      | _ \<Rightarrow> Inr (s\<lparr>bResyncNeeded := True\<rparr>))"

text \<open>\<^verbatim>\<open>case CARRIER_ON\<close> (source lines 604 to 661).\<close>

definition HandleCarrierEvent_ON :: "decoder \<Rightarrow> u32 \<Rightarrow> fault + decoder" where
  "HandleCarrierEvent_ON s event_time =
     (let s = s\<lparr>T_LastOnStart := event_time,
                eLastOffWidth := GetWidth (event_time - T_LastOffStart s)\<rparr>
      in case GetWidth (event_time - T_CellStart s) of
        eWidth_500 \<Rightarrow>
          if eLastOffWidth s = eWidth_500 then Inr (s\<lparr>bHalfSync := True\<rparr>)
          else Inr (s\<lparr>bResyncNeeded := True\<rparr>)
      | eWidth_100 \<Rightarrow>
          if \<not> bSyncedFlag s then Inr s
          else setBit_A False s
      | eWidth_200 \<Rightarrow>
          if \<not> bSyncedFlag s then Inr s
          else bind_fault (setBit_A True s) (\<lambda>s. setBit_B False s)
      | eWidth_300 \<Rightarrow>
          if \<not> bSyncedFlag s then Inr s
          else bind_fault (setBit_B False s) (\<lambda>s.
               if eLastOffWidth s = eWidth_100 then setBit_A False s
               else if eLastOffWidth s = eWidth_300 then setBit_A True s
               else Inr (s\<lparr>bResyncNeeded := True\<rparr>))
      | _ \<Rightarrow> Inr (s\<lparr>bResyncNeeded := True\<rparr>))"

text \<open>The block under \<^verbatim>\<open>if (bResyncNeeded)\<close> (source lines 672 to 682).\<close>

definition HandleCarrierEvent_resync :: "decoder \<Rightarrow> decoder" where
  "HandleCarrierEvent_resync s =
     (let s = ClientEventNotify MSF_EVENT_SYNC_LOST s
      in s\<lparr>nBitNum := 1, bHalfSync := False, bSyncedFlag := False, bResyncNeeded := False\<rparr>)"

text \<open>
  The \<^verbatim>\<open>switch (event_level)\<close> with its \<^verbatim>\<open>default\<close>, before the resync block:
  the state in which \<^verbatim>\<open>if (bResyncNeeded)\<close> is evaluated.
\<close>

definition HandleCarrierEvent_dispatch :: "decoder \<Rightarrow> u32 \<Rightarrow> u32 \<Rightarrow> fault + decoder" where
  "HandleCarrierEvent_dispatch s event_level event_time =
     (if event_level = CARRIER_OFF then HandleCarrierEvent_OFF s event_time
      else if event_level = CARRIER_ON then HandleCarrierEvent_ON s event_time
      else Inr (s\<lparr>bResyncNeeded := True\<rparr>))"

text \<open>
  \<^verbatim>\<open>HandleCarrierEvent(event_level)\<close>; the tick counter \<^verbatim>\<open>g_msSysTick\<close> it reads on
  entry is the third argument.
\<close>

definition HandleCarrierEvent :: "decoder \<Rightarrow> u32 \<Rightarrow> u32 \<Rightarrow> fault + decoder" where
  "HandleCarrierEvent s event_level g_msSysTick =
     (let event_time = g_msSysTick in
      bind_fault (HandleCarrierEvent_dispatch s event_level event_time) (\<lambda>s.
        if bResyncNeeded s then Inr (HandleCarrierEvent_resync s) else Inr s))"

section \<open>The public API\<close>

text \<open>
  \<^verbatim>\<open>MSF_InitDecoder\<close>: the calls that set up the UART, the LED and the GPIO port touch no
  variable of the decoder; what remains is the \<^verbatim>\<open>if (pdata)\<close> block.
\<close>

definition MSF_InitDecoder :: "nat option \<Rightarrow> decoder \<Rightarrow> decoder" where
  "MSF_InitDecoder pdata s =
     (case pdata of
        Some p \<Rightarrow> s\<lparr>pClientDateTime := pdata, client_mem := (client_mem s)(p := zero_DateTime)\<rparr>
      | None \<Rightarrow> s)"

definition MSF_EnableEventNotifications :: "nat option \<Rightarrow> u32 \<Rightarrow> decoder \<Rightarrow> decoder" where
  "MSF_EnableEventNotifications pCallbackFunc enable_mask s =
     s\<lparr>pfClientEventCallback := pCallbackFunc, ui32ClientEventMask := enable_mask\<rparr>"

definition MSF_GetSyncState :: "decoder \<Rightarrow> bool" where
  "MSF_GetSyncState s = bSyncedFlag s"

section \<open>Program start and reachable states\<close>

text \<open>
  The initialisers of the statics; the arrays \<^verbatim>\<open>A_bits[8]\<close> and \<^verbatim>\<open>B_bits[8]\<close> have none
  and start zeroed. The client's memory is whatever it is.
\<close>

definition power_on :: "(nat \<Rightarrow> sMSFDateTime) \<Rightarrow> decoder" where
  "power_on mem =
     \<lparr>bSyncedFlag = False, A_bits = replicate 8 0, B_bits = replicate 8 0,
      LocalDateTime = zero_DateTime, pClientDateTime = None,
      pfClientEventCallback = None, ui32ClientEventMask = 0,
      T_LastOnStart = 0, T_LastOffStart = 0,
      eLastOnWidth = eWidth_INVALID, eLastOffWidth = eWidth_INVALID,
      T_CellStart = 0, nBitNum = 1, bHalfSync = False, bResyncNeeded = True,
      client_mem = mem, callback_calls = []\<rparr>"

text \<open>A sequence of edges, each a level with the tick count at which it is handled.\<close>

fun run :: "decoder \<Rightarrow> (u32 \<times> u32) list \<Rightarrow> fault + decoder" where
  "run s [] = Inr s"
| "run s (e # es) = bind_fault (HandleCarrierEvent s (fst e) (snd e)) (\<lambda>s. run s es)"

text \<open>
  The states the program can be in between two calls into the decoder: after power-on,
  after an edge that was handled without a fault, after an API call, and after the
  client wrote to its own memory (as \<^verbatim>\<open>main\<close> does when it clears
  \<^verbatim>\<open>bDateTimeUpdated\<close>).
\<close>

inductive reachable :: "decoder \<Rightarrow> bool" where
  start: "reachable (power_on mem)"
| edge: "reachable s \<Longrightarrow> HandleCarrierEvent s event_level tick = Inr s' \<Longrightarrow> reachable s'"
| init: "reachable s \<Longrightarrow> reachable (MSF_InitDecoder pdata s)"
| notifications: "reachable s \<Longrightarrow> reachable (MSF_EnableEventNotifications cb enable_mask s)"
| client: "reachable s \<Longrightarrow> reachable (s\<lparr>client_mem := mem\<rparr>)"

section \<open>Notions of the specification and sample inputs\<close>

declare CheckOddParity_loop.simps [simp del] ValidateBCD_loop.simps [simp del]

text \<open>
  A parity group in the specification's words: the number of set bits among
  \<open>bitarray[from..to]\<close>, counted together with the external parity bit, is odd.
\<close>

definition set_bits_in :: "u8 list \<Rightarrow> nat \<Rightarrow> nat \<Rightarrow> nat" where
  "set_bits_in bitarray from to = length (filter (getBit bitarray) [from..<Suc to])"

definition odd_parity_group :: "u8 list \<Rightarrow> nat \<Rightarrow> nat \<Rightarrow> bool \<Rightarrow> bool" where
  "odd_parity_group bitarray from to parity =
     odd (set_bits_in bitarray from to + (if parity then 1 else 0))"

text \<open>
  A frame with no date bit set: A53 to A58 are 1 (bytes 6 and 7 of the A array hold bits
  48 to 63), and the four parity bits B54 to B57 are 1.
\<close>

definition A_fixed_only :: "u8 list" where
  "A_fixed_only = [0, 0, 0, 0, 0, 0, 0xE0, 0x07]"

definition B_parity_only :: "u8 list" where
  "B_parity_only = [0, 0, 0, 0, 0, 0, 0xC0, 0x03]"

text \<open>
  The specification of \<^verbatim>\<open>ExtractBCD\<close>: going from \<open>lsbit\<close> down to \<open>msbit\<close>, each set
  bit adds the next entry of the weight table, starting with the first entry at \<open>lsbit\<close>.
\<close>

definition bcd_weights_sum :: "u8 list \<Rightarrow> nat \<Rightarrow> nat \<Rightarrow> u8" where
  "bcd_weights_sum bitarray msbit lsbit =
     (\<Sum>k<Suc lsbit - msbit. if getBit bitarray (lsbit - k) then BCD ! k else 0)"

text \<open>
  The two-nibble BCD code of a number \<open>v\<close> up to 99, least significant bit first: bits
  0 to 3 are the binary digits of the units digit, bits 4 to 7 those of the tens digit.
  A bit range \<open>msbit..lsbit\<close> encodes \<open>v\<close> when its bits, read from \<open>lsbit\<close> downwards,
  are these, and the code needs no bit beyond the width of the range.
\<close>

definition bcd_bit :: "nat \<Rightarrow> nat \<Rightarrow> bool" where
  "bcd_bit v k = (if k < 4 then bit (v mod 10) k else bit (v div 10) (k - 4))"

definition encodes_BCD :: "u8 list \<Rightarrow> nat \<Rightarrow> nat \<Rightarrow> nat \<Rightarrow> bool" where
  "encodes_BCD bitarray msbit lsbit v =
     (v \<le> 99 \<and>
      (\<forall>k \<in> {0..<8}. bcd_bit v k = (k \<le> lsbit - msbit \<and> getBit bitarray (lsbit - k))))"

text \<open>
  Year bits for 24: tens nibble 0010 in A17..A20 (A19 set), units nibble 0100 in
  A21..A24 (A22 set); bits 16 to 23 are byte 2.
\<close>

definition A_year24 :: "u8 list" where
  "A_year24 = [0, 0, 0x48, 0, 0, 0, 0, 0]"

text \<open>
  The frame of the specification's scenario A: year 24, month 5, day 28, day of week 2,
  hour 14, minute 37, no DST, with A53..A58 set and the parity bits B54 and B55 set
  (the year and the month-day groups hold an even number of set bits, the other two an
  odd number).
\<close>

definition A_scenario :: "u8 list" where
  "A_scenario = [0, 0, 0x48, 0x68, 0x21, 0xC5, 0xEE, 0x07]"

definition B_scenario :: "u8 list" where
  "B_scenario = [0, 0, 0, 0, 0, 0, 0xC0, 0]"

text \<open>
  The structure \<^verbatim>\<open>DecodeFrame\<close> is to leave in \<^verbatim>\<open>LocalDateTime\<close>: each field the weighted
  sum over its bit range, both flags set.
\<close>

definition frame_DateTime :: "u8 list \<Rightarrow> u8 list \<Rightarrow> sMSFDateTime" where
  "frame_DateTime A B =
     \<lparr>bHasValidTime = True, bDateTimeUpdated = True,
      Year = bcd_weights_sum A 17 24, Month = bcd_weights_sum A 25 29,
      Day = bcd_weights_sum A 30 35, Hour = bcd_weights_sum A 39 44,
      Minute = bcd_weights_sum A 45 51, DOW = bcd_weights_sum A 36 38,
      DST = bcd_weights_sum B 58 58\<rparr>"

text \<open>
  A decoder holding the frame of scenario A, with a client buffer at address 0 and a
  callback subscribed to all three events.
\<close>

definition scenario_state :: decoder where
  "scenario_state =
     (power_on (\<lambda>p. zero_DateTime))
       \<lparr>A_bits := A_scenario, B_bits := B_scenario, pClientDateTime := Some 0,
        pfClientEventCallback := Some 0, ui32ClientEventMask := 7\<rparr>"

text \<open>
  Edge sequences, each edge a level with its tick count. \<open>sync_edges\<close>: the carrier
  comes on at 0, goes off at 500, comes on at 1000 and goes off at 1500 (a 500 ms OFF span
  followed by a 500 ms ON span). \<open>zero_cells n c\<close>: \<open>n\<close> one-second cells from tick \<open>c\<close>,
  each 100 ms off and 900 ms on (A = 0, B = 0).
\<close>

definition sync_edges :: "(u32 \<times> u32) list" where
  "sync_edges = [(CARRIER_ON, 0), (CARRIER_OFF, 500), (CARRIER_ON, 1000), (CARRIER_OFF, 1500)]"

fun zero_cells :: "nat \<Rightarrow> u32 \<Rightarrow> (u32 \<times> u32) list" where
  "zero_cells 0 c = []"
| "zero_cells (Suc n) c = (CARRIER_ON, c + 100) # (CARRIER_OFF, c + 1000) # zero_cells n (c + 1000)"

text \<open>
  A synced decoder at a cell boundary \<open>c\<close> with cursor \<open>k\<close> and no bit set so far.
\<close>

definition in_zero_frame :: "decoder \<Rightarrow> u32 \<Rightarrow> nat \<Rightarrow> bool" where
  "in_zero_frame s c k =
     (bSyncedFlag s \<and> bHalfSync s \<and> \<not> bResyncNeeded s
      \<and> T_CellStart s = c \<and> T_LastOffStart s = c
      \<and> nBitNum s = k \<and> A_bits s = replicate 8 0 \<and> B_bits s = replicate 8 0)"



text \<open>
  The states the program can be in before the first carrier edge is handled: power-on,
  then any API calls and client writes.
\<close>

inductive before_first_edge :: "decoder \<Rightarrow> bool" where
  power: "before_first_edge (power_on mem)"
| init_called: "before_first_edge s \<Longrightarrow> before_first_edge (MSF_InitDecoder pdata s)"
| notifications_set:
    "before_first_edge s \<Longrightarrow> before_first_edge (MSF_EnableEventNotifications cb enable_mask s)"
| client_wrote: "before_first_edge s \<Longrightarrow> before_first_edge (s\<lparr>client_mem := mem\<rparr>)"

text \<open>The test of \<^verbatim>\<open>ClientEventNotify\<close>: a listener is registered and the event unmasked.\<close>

definition subscribed :: "decoder \<Rightarrow> eMSFEventType \<Rightarrow> bool" where
  "subscribed s ev =
     (pfClientEventCallback s \<noteq> None \<and> (ui32ClientEventMask s AND event_bits ev) \<noteq> 0)"

text \<open>
  An edge triggers a resync when \<^verbatim>\<open>bResyncNeeded\<close> is set at the point where
  \<^verbatim>\<open>if (bResyncNeeded)\<close> is evaluated.
\<close>

definition resync_triggered :: "decoder \<Rightarrow> u32 \<Rightarrow> u32 \<Rightarrow> bool" where
  "resync_triggered s event_level tick =
     (case HandleCarrierEvent_dispatch s event_level tick of
        Inr s1 \<Rightarrow> bResyncNeeded s1
      | Inl f \<Rightarrow> False)"






text \<open>
  A client that registered a buffer at address 0 and a callback subscribed to all three
  events, before any edge; the same client after a first edge (carrier on at 0); and
  after a SYNC and two cells (the edges \<open>mid_frame_edges\<close>), the cursor on bit 3.
\<close>

definition subscriber_state :: decoder where
  "subscriber_state =
     MSF_EnableEventNotifications (Some 0) 7
       (MSF_InitDecoder (Some 0) (power_on (\<lambda>p. zero_DateTime)))"

definition mid_frame_edges :: "(u32 \<times> u32) list" where
  "mid_frame_edges =
     sync_edges @ [(CARRIER_ON, 1600), (CARRIER_OFF, 2500), (CARRIER_ON, 2600), (CARRIER_OFF, 3500)]"

definition mid_frame_state :: decoder where
  "mid_frame_state =
     subscriber_state
       \<lparr>bSyncedFlag := True, bHalfSync := True, bResyncNeeded := False, nBitNum := 3,
        T_LastOnStart := 2600, T_LastOffStart := 3500, T_CellStart := 3500,
        eLastOnWidth := eWidth_900, eLastOffWidth := eWidth_100,
        callback_calls := [MSF_EVENT_SYNC_LOST, MSF_EVENT_SYNC_LOST, MSF_EVENT_SYNC]\<rparr>"

definition first_edged :: decoder where
  "first_edged =
     subscriber_state\<lparr>bResyncNeeded := False, callback_calls := [MSF_EVENT_SYNC_LOST]\<rparr>"

section \<open>Properties of the pulse classifier\<close>

lemma sint_if_uint:
  fixes x :: u32
  shows "sint x = (if uint x < 2147483648 then uint x else uint x - 4294967296)"
proof -
  have b: "0 \<le> uint x" "uint x < 4294967296"
    using uint_lt2p [of x] by simp_all
  have "sint x = take_bit 32 (uint x + 2147483648) - 2147483648"
    by (simp add: sint_uint signed_take_bit_eq_take_bit_shift)
  also have "\<dots> = (uint x + 2147483648) mod 4294967296 - 2147483648"
    by (simp add: take_bit_eq_mod)
  finally have s: "sint x = (uint x + 2147483648) mod 4294967296 - 2147483648" .
  show ?thesis
  proof (cases "uint x < 2147483648")
    case True
    then have "(uint x + 2147483648) mod 4294967296 = uint x + 2147483648"
      using b by (intro mod_pos_pos_trivial) simp_all
    with True s show ?thesis by simp
  next
    case False
    have "(uint x + 2147483648) mod 4294967296
            = ((uint x - 2147483648) + 4294967296) mod 4294967296"
      by (simp add: add.commute)
    also have "\<dots> = (uint x - 2147483648) mod 4294967296"
      by (simp only: mod_add_self2)
    also have "\<dots> = uint x - 2147483648"
      using False b by (intro mod_pos_pos_trivial) simp_all
    finally show ?thesis using False s by simp
  qed
qed

lemma c_abs_cases:
  "c_abs j = (if j = 2147483648 then - 2147483648 else \<bar>sint j\<bar>)"
proof (cases "j = 2147483648")
  case True
  then show ?thesis by (simp add: c_abs_def)
next
  case False
  have r: "- 2147483648 \<le> sint j" "sint j < 2147483648"
    using sint_ge [of j] sint_lt [of j] by simp_all
  have "sint j \<noteq> - 2147483648"
  proof
    assume "sint j = - 2147483648"
    then have "sint j = sint (2147483648 :: u32)" by simp
    then have "j = 2147483648" by (simp only: signed_word_eqI)
    with False show False by simp
  qed
  with r have "- 2147483648 \<le> - sint j" "- sint j < 2147483648" by simp_all
  then have "signed_take_bit 31 (- sint j) = - sint j"
    by (simp add: signed_take_bit_int_eq_self)
  then have "sint (- j) = - sint j"
    by (simp add: sint_word_minus)
  with False show ?thesis
    by (simp add: c_abs_def)
qed

text \<open>
  For a nominal length \<open>n\<close> between 30 and 1000 the test on the wrapped, signed difference
  is the test on the distance between the two numbers, but for the one interval
  \<open>n + 2 ^ 31\<close>, where the difference is \<^verbatim>\<open>INT_MIN\<close> and the test succeeds.
\<close>

lemma c_abs_sub:
  fixes w :: u32
  assumes "30 \<le> n" "n \<le> 1000"
  shows "(c_abs (w - word_of_int n) < 30) = (\<bar>uint w - n\<bar> < 30 \<or> uint w = n + 2147483648)"
proof -
  define u where "u = uint w"
  define d where "d = uint (w - word_of_int n)"
  have b: "0 \<le> u" "u < 4294967296"
    using uint_lt2p [of w] by (simp_all add: u_def)
  have un: "uint (word_of_int n :: u32) = n"
    using assms by (simp add: uint_word_of_int mod_pos_pos_trivial)
  have d: "d = (if n \<le> u then u - n else u - n + 4294967296)"
    by (simp add: uint_sub_if' un d_def u_def)
  have s: "sint (w - word_of_int n) = (if d < 2147483648 then d else d - 4294967296)"
    unfolding d_def by (rule sint_if_uint)
  have m: "(w - word_of_int n = 2147483648) = (d = 2147483648)"
  proof
    assume "w - word_of_int n = 2147483648"
    then show "d = 2147483648" by (simp add: d_def)
  next
    assume "d = 2147483648"
    then have "uint (w - word_of_int n) = uint (2147483648 :: u32)"
      by (simp add: d_def)
    then show "w - word_of_int n = 2147483648"
      by (simp only: word_uint_eq_iff)
  qed
  have "(c_abs (w - word_of_int n) < 30) = (\<bar>u - n\<bar> < 30 \<or> u = n + 2147483648)"
    unfolding c_abs_cases m s d using assms b by (auto split: if_splits)
  then show ?thesis
    by (simp add: u_def)
qed

lemma GetWidth_int:
  "GetWidth w =
     (if \<bar>uint w - 100\<bar> < 30 \<or> uint w = 100 + 2147483648 then eWidth_100
      else if \<bar>uint w - 200\<bar> < 30 \<or> uint w = 200 + 2147483648 then eWidth_200
      else if \<bar>uint w - 300\<bar> < 30 \<or> uint w = 300 + 2147483648 then eWidth_300
      else if \<bar>uint w - 500\<bar> < 30 \<or> uint w = 500 + 2147483648 then eWidth_500
      else if \<bar>uint w - 700\<bar> < 30 \<or> uint w = 700 + 2147483648 then eWidth_700
      else if \<bar>uint w - 800\<bar> < 30 \<or> uint w = 800 + 2147483648 then eWidth_800
      else if \<bar>uint w - 900\<bar> < 30 \<or> uint w = 900 + 2147483648 then eWidth_900
      else eWidth_INVALID)"
  using c_abs_sub [of 100 w] c_abs_sub [of 200 w] c_abs_sub [of 300 w] c_abs_sub [of 500 w]
    c_abs_sub [of 700 w] c_abs_sub [of 800 w] c_abs_sub [of 900 w]
  by (simp add: GetWidth_def PULSE_MARGIN_def)

text \<open>
  Where the classifier is right: an interval within the strict margin of a nominal width
  gets that width's symbol, an interval exactly 30 ms from a nominal width is invalid, and
  an interval within the margin of no nominal width is invalid unless it is a nominal
  width plus \<open>2 ^ 31\<close>.
\<close>

lemma GetWidth_in_window:
  assumes "nominal_ms e = Some n" and "\<bar>uint w - n\<bar> < PULSE_MARGIN"
  shows "GetWidth w = e"
  using assms by (cases e) (auto simp: GetWidth_int PULSE_MARGIN_def)

lemma GetWidth_boundary:
  assumes "nominal_ms e = Some n" and "\<bar>uint w - n\<bar> = PULSE_MARGIN"
  shows "GetWidth w = eWidth_INVALID \<and> GetWidth w \<noteq> e"
  using assms by (cases e) (auto simp: GetWidth_int PULSE_MARGIN_def)

lemma GetWidth_no_window:
  assumes none: "\<forall>e n. nominal_ms e = Some n
      \<longrightarrow> \<not> \<bar>uint w - n\<bar> < PULSE_MARGIN \<and> uint w \<noteq> n + 2147483648"
  shows "GetWidth w = eWidth_INVALID"
proof -
  have "\<not> (\<bar>uint w - 100\<bar> < 30 \<or> uint w = 100 + 2147483648)"
    "\<not> (\<bar>uint w - 200\<bar> < 30 \<or> uint w = 200 + 2147483648)"
    "\<not> (\<bar>uint w - 300\<bar> < 30 \<or> uint w = 300 + 2147483648)"
    "\<not> (\<bar>uint w - 500\<bar> < 30 \<or> uint w = 500 + 2147483648)"
    "\<not> (\<bar>uint w - 700\<bar> < 30 \<or> uint w = 700 + 2147483648)"
    "\<not> (\<bar>uint w - 800\<bar> < 30 \<or> uint w = 800 + 2147483648)"
    "\<not> (\<bar>uint w - 900\<bar> < 30 \<or> uint w = 900 + 2147483648)"
    using none [rule_format, of eWidth_100 100] none [rule_format, of eWidth_200 200]
      none [rule_format, of eWidth_300 300] none [rule_format, of eWidth_500 500]
      none [rule_format, of eWidth_700 700] none [rule_format, of eWidth_800 800]
      none [rule_format, of eWidth_900 900]
    by (simp_all add: PULSE_MARGIN_def)
  then show ?thesis
    by (simp only: GetWidth_int if_False)
qed

text \<open>
  Claim C3 says that for every measured interval \<open>w\<close> \<^verbatim>\<open>GetWidth\<close> returns the symbol of
  a nominal width \<open>n\<close> if \<open>|w - n| < 30\<close>, and \<^verbatim>\<open>eWidth_INVALID\<close> whenever no nominal width
  is within the strict 30 ms margin. The code does not do the second for an interval of
  2147483748 ms (\<open>100 + 2 ^ 31\<close>): \<^verbatim>\<open>width-100\<close> is \<open>2 ^ 31\<close>, \<^verbatim>\<open>abs\<close> receives
  \<^verbatim>\<open>INT_MIN\<close> and returns it, \<^verbatim>\<open>INT_MIN < 30\<close> holds, and the interval is classified
  as 100 ms although every nominal width is more than 30 ms away from it.
\<close>

theorem GetWidth_wrapped_interval:
  "GetWidth 2147483748 = eWidth_100
   \<and> GetWidth 2147483748 \<noteq> eWidth_INVALID
   \<and> list_all (\<lambda>n. \<not> \<bar>uint (2147483748 :: u32) - n\<bar> < PULSE_MARGIN)
        [100, 200, 300, 500, 700, 800, 900]"
  by (simp add: GetWidth_def c_abs_def PULSE_MARGIN_def)

section \<open>Properties of the frame validator\<close>

lemma CheckOddParity_loop_counts:
  "CheckOddParity_loop bitarray to bitnum numset =
     numset + length (filter (getBit bitarray) [bitnum..<Suc to])"
proof (induction bitarray to bitnum numset rule: CheckOddParity_loop.induct)
  case (1 bitarray to bitnum numset)
  show ?case
  proof (cases "bitnum \<le> to")
    case True
    then have "[bitnum..<Suc to] = bitnum # [bitnum + 1..<Suc to]"
      by (simp add: upt_conv_Cons)
    with True "1.IH" show ?thesis
      by (subst CheckOddParity_loop.simps) simp
  next
    case False
    then show ?thesis
      by (subst CheckOddParity_loop.simps) simp
  qed
qed

lemma and_one_odd: "((n :: nat) AND 1 \<noteq> 0) = odd n"
  by (cases "odd n") (simp_all add: and_one_eq odd_iff_mod_2_eq_one)

lemma CheckOddParity_odd:
  "CheckOddParity bitarray from to parity = odd_parity_group bitarray from to parity"
  unfolding CheckOddParity_def odd_parity_group_def set_bits_in_def Let_def
    CheckOddParity_loop_counts and_one_odd
  by (simp del: upt_Suc)

lemma ValidateBCD_loop_None:
  "bitnum \<le> 59 \<Longrightarrow>
     (ValidateBCD_loop bitarray bitnum = None) = (\<forall>k \<in> {bitnum..58}. getBit bitarray k)"
proof (induction bitarray bitnum rule: ValidateBCD_loop.induct)
  case (1 bitarray bitnum)
  show ?case
  proof (cases "bitnum \<le> 58")
    case True
    then have s: "{bitnum..58} = insert bitnum {bitnum + 1..58}"
      by auto
    show ?thesis
      using True "1.IH" by (subst ValidateBCD_loop.simps) (auto simp: s)
  next
    case False
    then show ?thesis
      by (subst ValidateBCD_loop.simps) simp
  qed
qed

lemma ValidateBCD_loop_Some:
  "ValidateBCD_loop bitarray bitnum = Some j \<Longrightarrow>
     bitnum \<le> j \<and> j \<le> 58 \<and> \<not> getBit bitarray j
     \<and> (\<forall>k. bitnum \<le> k \<and> k < j \<longrightarrow> getBit bitarray k)"
proof (induction bitarray bitnum rule: ValidateBCD_loop.induct)
  case (1 bitarray bitnum)
  from "1.prems" have le: "bitnum \<le> 58"
    by (subst (asm) ValidateBCD_loop.simps) (simp split: if_splits)
  show ?case
  proof (cases "getBit bitarray bitnum")
    case False
    with le "1.prems" have "j = bitnum"
      by (subst (asm) ValidateBCD_loop.simps) simp
    with False le show ?thesis by auto
  next
    case True
    with le "1.prems" have "ValidateBCD_loop bitarray (bitnum + 1) = Some j"
      by (subst (asm) ValidateBCD_loop.simps) simp
    from "1.IH" [OF le _ this] True
    have "bitnum + 1 \<le> j \<and> j \<le> 58 \<and> \<not> getBit bitarray j
          \<and> (\<forall>k. bitnum + 1 \<le> k \<and> k < j \<longrightarrow> getBit bitarray k)"
      by simp
    with True show ?thesis
      by (metis Suc_eq_plus1 Suc_leD Suc_leI le_neq_implies_less)
  qed
qed

lemma ValidateBCD_loop_first:
  assumes "ValidateBCD_loop bitarray 53 = Some j"
  shows "j = Min {k \<in> {53..58}. \<not> getBit bitarray k}"
proof -
  from ValidateBCD_loop_Some [OF assms]
  have j: "53 \<le> j" "j \<le> 58" "\<not> getBit bitarray j"
    and before: "\<And>k. 53 \<le> k \<Longrightarrow> k < j \<Longrightarrow> getBit bitarray k"
    by auto
  have "Min {k \<in> {53..58}. \<not> getBit bitarray k} = j"
  proof (rule Min_eqI)
    show "finite {k \<in> {53..58}. \<not> getBit bitarray k}" by simp
    show "j \<in> {k \<in> {53..58}. \<not> getBit bitarray k}" using j by simp
    fix y
    assume "y \<in> {k \<in> {53..58}. \<not> getBit bitarray k}"
    then show "j \<le> y" using before [of y] by (cases "y < j") auto
  qed
  then show ?thesis by simp
qed

text \<open>
  Claim C2. \<^verbatim>\<open>ValidateBCD\<close> returns true exactly when A52 is 0, A53 to A58 are all 1,
  A59 is 0, and each of the four groups A17..A24 with B54, A25..A35 with B55, A36..A38
  with B56 and A39..A51 with B57 holds an odd number of set bits. The checks are made in
  this order and stop at the first failure: the message logged is that of the first check
  that fails (for A53..A58, of the lowest clear bit), whatever the later checks would say.
\<close>

theorem ValidateBCD_checks:
  "fst (ValidateBCD A B) =
     (\<not> getBit A 52 \<and> (\<forall>k \<in> {53..58}. getBit A k) \<and> \<not> getBit A 59
      \<and> odd_parity_group A 17 24 (getBit B 54) \<and> odd_parity_group A 25 35 (getBit B 55)
      \<and> odd_parity_group A 36 38 (getBit B 56) \<and> odd_parity_group A 39 51 (getBit B 57))
   \<and> snd (ValidateBCD A B) =
     (if getBit A 52 then Some A52_not_zero
      else if \<exists>k \<in> {53..58}. \<not> getBit A k
        then Some (A_not_set (Min {k \<in> {53..58}. \<not> getBit A k}))
      else if getBit A 59 then Some A59_not_zero
      else if \<not> odd_parity_group A 17 24 (getBit B 54) then Some Parity_A17_A24_B54
      else if \<not> odd_parity_group A 25 35 (getBit B 55) then Some Parity_A25_A35_B55
      else if \<not> odd_parity_group A 36 38 (getBit B 56) then Some Parity_A36_A38_B56
      else if \<not> odd_parity_group A 39 51 (getBit B 57) then Some Parity_A39_A51_B57
      else None)"
proof (cases "ValidateBCD_loop A 53")
  case None
  then have "\<forall>k \<in> {53..58}. getBit A k"
    using ValidateBCD_loop_None [of 53 A] by simp
  with None show ?thesis
    by (simp add: ValidateBCD_def CheckOddParity_odd)
next
  case (Some j)
  from ValidateBCD_loop_Some [OF Some] have "\<exists>k \<in> {53..58}. \<not> getBit A k"
    by auto
  with Some ValidateBCD_loop_first [OF Some] show ?thesis
    by (simp add: ValidateBCD_def)
qed

lemma fixed_only_checks:
  "\<not> getBit A_fixed_only 52 \<and> (\<forall>k \<in> {53..58}. getBit A_fixed_only k)
   \<and> \<not> getBit A_fixed_only 59
   \<and> odd_parity_group A_fixed_only 17 24 (getBit B_parity_only 54)
   \<and> odd_parity_group A_fixed_only 25 35 (getBit B_parity_only 55)
   \<and> odd_parity_group A_fixed_only 36 38 (getBit B_parity_only 56)
   \<and> odd_parity_group A_fixed_only 39 51 (getBit B_parity_only 57)"
  by code_simp

text \<open>The frame with only the fixed and parity bits set passes all seven checks.\<close>

theorem ValidateBCD_checks_witness:
  "fst (ValidateBCD A_fixed_only B_parity_only)
   \<and> snd (ValidateBCD A_fixed_only B_parity_only) = None"
proof
  note c = fixed_only_checks
  from ValidateBCD_checks [of A_fixed_only B_parity_only] c
  show "fst (ValidateBCD A_fixed_only B_parity_only)"
    by blast
  have nb: "\<not> (\<exists>k \<in> {53..58}. \<not> getBit A_fixed_only k)"
    using c by blast
  from ValidateBCD_checks [of A_fixed_only B_parity_only]
  have "snd (ValidateBCD A_fixed_only B_parity_only) =
     (if getBit A_fixed_only 52 then Some A52_not_zero
      else if \<exists>k \<in> {53..58}. \<not> getBit A_fixed_only k
        then Some (A_not_set (Min {k \<in> {53..58}. \<not> getBit A_fixed_only k}))
      else if getBit A_fixed_only 59 then Some A59_not_zero
      else if \<not> odd_parity_group A_fixed_only 17 24 (getBit B_parity_only 54)
        then Some Parity_A17_A24_B54
      else if \<not> odd_parity_group A_fixed_only 25 35 (getBit B_parity_only 55)
        then Some Parity_A25_A35_B55
      else if \<not> odd_parity_group A_fixed_only 36 38 (getBit B_parity_only 56)
        then Some Parity_A36_A38_B56
      else if \<not> odd_parity_group A_fixed_only 39 51 (getBit B_parity_only 57)
        then Some Parity_A39_A51_B57
      else None)"
    by (rule conjunct2)
  with c nb show "snd (ValidateBCD A_fixed_only B_parity_only) = None"
    by (simp only: simp_thms if_False if_True)
qed

section \<open>Properties of the BCD extractor\<close>

lemma ExtractBCD_loop_sum:
  assumes pos: "0 < msbit"
  shows "unat b + 1 - unat msbit = n \<Longrightarrow> unat digit + n \<le> 8 \<Longrightarrow>
     ExtractBCD_loop bitarray msbit b digit result =
       Some (result + (\<Sum>k<n. if getBit bitarray (unat b - k) then BCD ! (unat digit + k) else 0))"
proof (induction n arbitrary: b digit result)
  case 0
  then have "\<not> msbit \<le> b"
    by (simp add: word_le_nat_alt)
  then show ?case
    by (subst ExtractBCD_loop.simps) simp
next
  case (Suc n)
  from Suc.prems have le: "msbit \<le> b"
    by (simp add: word_le_nat_alt)
  with pos have "b \<noteq> 0"
    by auto
  then have b1: "unat (b - 1) = unat b - 1"
    by (rule unat_minus_one)
  from Suc.prems have dlt: "unat digit < 8"
    by simp
  have "unat digit + unat (1 :: u8) < 2 ^ LENGTH(8)"
    using dlt by simp
  then have d1: "unat (digit + 1) = unat digit + 1"
    by (simp add: unat_add_lem [THEN iffD1])
  from \<open>b \<noteq> 0\<close> have bpos: "0 < unat b"
    by (simp add: unat_gt_0)
  have n1: "unat (b - 1) + 1 - unat msbit = n"
    using Suc.prems b1 bpos by simp
  have n2: "unat (digit + 1) + n \<le> 8"
    using Suc.prems d1 by simp
  let ?r = "if getBit bitarray (unat b) then result + BCD ! unat digit else result"
  have step: "ExtractBCD_loop bitarray msbit b digit result =
      ExtractBCD_loop bitarray msbit (b - 1) (digit + 1) ?r"
    using le dlt by (subst ExtractBCD_loop.simps) (simp add: BCD_def)
  have shift: "(\<Sum>k<Suc n. if getBit bitarray (unat b - k) then BCD ! (unat digit + k) else 0)
      = (if getBit bitarray (unat b) then BCD ! unat digit else 0)
        + (\<Sum>k<n. if getBit bitarray (unat (b - 1) - k) then BCD ! (unat (digit + 1) + k) else 0)"
    by (simp add: sum.lessThan_Suc_shift b1 d1 del: sum.lessThan_Suc cong: if_cong)
  show ?case
    unfolding step Suc.IH [OF n1 n2] shift by (simp add: add.assoc)
qed

lemma ExtractBCD_sum:
  assumes "0 < msbit" "msbit \<le> lsbit" "unat lsbit - unat msbit < 8"
  shows "ExtractBCD bitarray msbit lsbit = Some (bcd_weights_sum bitarray (unat msbit) (unat lsbit))"
proof -
  have "unat lsbit + 1 - unat msbit = Suc (unat lsbit) - unat msbit" by simp
  moreover have "unat (0 :: u8) + (Suc (unat lsbit) - unat msbit) \<le> 8"
    using assms by (simp add: word_le_nat_alt)
  ultimately show ?thesis
    unfolding ExtractBCD_def bcd_weights_sum_def
    using ExtractBCD_loop_sum [OF assms(1), where b = lsbit and digit = 0 and result = 0
        and n = "Suc (unat lsbit) - unat msbit" and bitarray = bitarray]
    by (simp cong: if_cong)
qed


lemma nibble_all:
  "\<forall>n \<in> {0..<16}. (if bit n 0 then 1 else 0) + (if bit n 1 then 2 else 0)
         + (if bit n 2 then 4 else 0) + (if bit n 3 then 8 else (0::nat)) = n"
  by code_simp

lemma nibble_value:
  fixes n :: nat
  assumes "n < 16"
  shows "(if bit n 0 then 1 else 0) + (if bit n 1 then 2 else 0)
         + (if bit n 2 then 4 else 0) + (if bit n 3 then 8 else (0::nat)) = n"
  using assms nibble_all by simp

lemma bcd_bits_value:
  assumes "v \<le> 99"
  shows "(\<Sum>k<8. if bcd_bit v k then BCD ! k else 0) = (of_nat v :: u8)"
proof -
  define u where "u = v mod 10"
  define t where "t = v div 10"
  have ut: "u < 16" "t < 16" and v: "v = u + 10 * t"
    using assms by (simp_all add: u_def t_def)
  have s: "{..<8::nat} = {0, 1, 2, 3, 4, 5, 6, 7}"
    by auto
  have "(\<Sum>k<8. if bcd_bit v k then BCD ! k else 0)
      = (of_nat ((if bit u 0 then 1 else 0) + (if bit u 1 then 2 else 0)
         + (if bit u 2 then 4 else 0) + (if bit u 3 then 8 else (0::nat))
         + 10 * ((if bit t 0 then 1 else 0) + (if bit t 1 then 2 else 0)
         + (if bit t 2 then 4 else 0) + (if bit t 3 then 8 else (0::nat)))) :: u8)"
    unfolding s by (simp add: bcd_bit_def BCD_def u_def [symmetric] t_def [symmetric])
  also have "\<dots> = of_nat (u + 10 * t)"
    by (simp only: nibble_value [OF ut(1)] nibble_value [OF ut(2)])
  finally show ?thesis
    by (simp only: v)
qed

lemma encodes_BCD_sum:
  assumes le: "msbit \<le> lsbit" and w: "lsbit - msbit < 8"
    and enc: "encodes_BCD bitarray msbit lsbit v"
  shows "bcd_weights_sum bitarray msbit lsbit = of_nat v"
proof -
  from enc have v: "v \<le> 99"
    and bits: "\<And>k. k < 8 \<Longrightarrow> bcd_bit v k = (k \<le> lsbit - msbit \<and> getBit bitarray (lsbit - k))"
    by (auto simp: encodes_BCD_def)
  have "(\<Sum>k<Suc lsbit - msbit. if getBit bitarray (lsbit - k) then BCD ! k else 0)
      = (\<Sum>k<8. if bcd_bit v k then BCD ! k else 0)"
  proof (rule sum.mono_neutral_cong_left)
    show "finite {..<8::nat}" by simp
    show "{..<Suc lsbit - msbit} \<subseteq> {..<8}" using w by auto
    show "\<forall>i \<in> {..<8} - {..<Suc lsbit - msbit}. (if bcd_bit v i then BCD ! i else 0) = 0"
    proof
      fix i
      assume "i \<in> {..<8} - {..<Suc lsbit - msbit}"
      then have "i < 8" "\<not> i \<le> lsbit - msbit" using le by auto
      then show "(if bcd_bit v i then BCD ! i else 0) = 0"
        using bits [of i] by simp
    qed
    fix k
    assume "k \<in> {..<Suc lsbit - msbit}"
    then have "k < 8" "k \<le> lsbit - msbit" using w le by auto
    then show "(if getBit bitarray (lsbit - k) then BCD ! k else 0)
        = (if bcd_bit v k then BCD ! k else 0)"
      using bits [of k] by simp
  qed
  then show ?thesis
    unfolding bcd_weights_sum_def bcd_bits_value [OF v] .
qed

text \<open>
  Bit 0 is not part of a frame (the arrays are numbered from b1). A call with
  \<open>msbit = 0\<close> has no result: the only exit of the loop is a failed test \<open>msbit \<le> b\<close>.
\<close>

lemma ExtractBCD_loop_returns_msbit:
  assumes "ExtractBCD_loop bitarray msbit b digit result = Some y"
  shows "msbit \<noteq> 0"
proof (rule ExtractBCD_loop.raw_induct
    [where P = "\<lambda>bitarray msbit b digit result y. msbit \<noteq> 0", OF _ assms])
  fix loop :: "u8 list \<Rightarrow> u8 \<Rightarrow> u8 \<Rightarrow> u8 \<Rightarrow> u8 \<Rightarrow> u8 option"
    and bitarray msbit b digit result y
  assume IH: "\<And>bitarray msbit b digit result y.
      loop bitarray msbit b digit result = Some y \<Longrightarrow> msbit \<noteq> 0"
  assume body: "(if msbit \<le> b then
        (if getBit bitarray (unat b) then
           (if unat digit < length BCD
            then loop bitarray msbit (b - 1) (digit + 1) (result + BCD ! unat digit)
            else None)
         else loop bitarray msbit (b - 1) (digit + 1) result)
      else Some result) = Some y"
  show "msbit \<noteq> 0"
  proof (cases "msbit \<le> b")
    case True
    with body IH show ?thesis
      by (auto split: if_splits)
  next
    case False
    then show ?thesis
      by auto
  qed
qed

lemma ExtractBCD_from_bit_0: "ExtractBCD bitarray 0 lsbit = None"
proof (cases "ExtractBCD bitarray 0 lsbit")
  case None
  then show ?thesis .
next
  case (Some y)
  then have "(0 :: u8) \<noteq> 0"
    unfolding ExtractBCD_def by (rule ExtractBCD_loop_returns_msbit)
  then show ?thesis by simp
qed

text \<open>
  Claim C5. For a bit range of the frame (\<open>msbit\<close> at least 1, since bit 0 is not part of
  the frame) of width at most 8, \<^verbatim>\<open>ExtractBCD\<close> returns, and what it returns is the sum,
  over the bit positions from \<open>lsbit\<close> down to \<open>msbit\<close>, of the successive weights
  1, 2, 4, 8, 10, 20, 40, 80 of the set bits, the first weight belonging to \<open>lsbit\<close>.
  Consequently, when the bits of the range encode a two-nibble BCD value \<open>v\<close> between 0
  and 99, it returns exactly \<open>v\<close>.
\<close>

theorem ExtractBCD_weights:
  assumes "0 < msbit" and "msbit \<le> lsbit" and "unat lsbit - unat msbit < 8"
  shows "ExtractBCD bitarray msbit lsbit
           = Some (bcd_weights_sum bitarray (unat msbit) (unat lsbit))
    \<and> (\<forall>v. encodes_BCD bitarray (unat msbit) (unat lsbit) v
           \<longrightarrow> ExtractBCD bitarray msbit lsbit = Some (of_nat v))"
proof -
  from assms(2) have "unat msbit \<le> unat lsbit"
    by (simp add: word_le_nat_alt)
  from ExtractBCD_sum [OF assms] encodes_BCD_sum [OF this assms(3)] show ?thesis
    by simp
qed

lemma upto8: "{0..<8::nat} = {0, 1, 2, 3, 4, 5, 6, 7}"
  by auto

lemma year24: "encodes_BCD A_year24 (unat (17 :: u8)) (unat (24 :: u8)) 24"
  by (simp add: encodes_BCD_def upto8 bcd_bit_def bit_iff_odd getBit_def A_year24_def)

text \<open>The Year bits encoding 24 extract to 24.\<close>

theorem ExtractBCD_weights_witness:
  "ExtractBCD A_year24 17 24 = Some 24"
proof -
  have h: "0 < (17 :: u8)" "(17 :: u8) \<le> 24" "unat (24 :: u8) - unat (17 :: u8) < 8"
    by simp_all
  from ExtractBCD_weights [OF h, of A_year24] year24
  have "ExtractBCD A_year24 17 24 = Some (of_nat 24)"
    by blast
  then show ?thesis by simp
qed

section \<open>Properties of the frame decoder\<close>

lemma ExtractBCD_call_frame:
  assumes "0 < msbit" and "msbit \<le> lsbit" and "unat lsbit - unat msbit < 8"
  shows "ExtractBCD_call bitarray msbit lsbit
           = Inr (bcd_weights_sum bitarray (unat msbit) (unat lsbit))"
  using ExtractBCD_sum [OF assms] by (simp add: ExtractBCD_call_def)

lemma ExtractBCD_calls:
  "ExtractBCD_call bitarray 17 24 = Inr (bcd_weights_sum bitarray 17 24)"
  "ExtractBCD_call bitarray 25 29 = Inr (bcd_weights_sum bitarray 25 29)"
  "ExtractBCD_call bitarray 30 35 = Inr (bcd_weights_sum bitarray 30 35)"
  "ExtractBCD_call bitarray 36 38 = Inr (bcd_weights_sum bitarray 36 38)"
  "ExtractBCD_call bitarray 39 44 = Inr (bcd_weights_sum bitarray 39 44)"
  "ExtractBCD_call bitarray 45 51 = Inr (bcd_weights_sum bitarray 45 51)"
  "ExtractBCD_call bitarray 58 58 = Inr (bcd_weights_sum bitarray 58 58)"
  using ExtractBCD_call_frame [of 17 24 bitarray] ExtractBCD_call_frame [of 25 29 bitarray]
    ExtractBCD_call_frame [of 30 35 bitarray] ExtractBCD_call_frame [of 36 38 bitarray]
    ExtractBCD_call_frame [of 39 44 bitarray] ExtractBCD_call_frame [of 45 51 bitarray]
    ExtractBCD_call_frame [of 58 58 bitarray]
  by simp_all

lemma all_fields_assigned:
  "(d :: sMSFDateTime)\<lparr>Year := y, Month := mo, Day := da, DOW := dw, Hour := h, Minute := mi,
      DST := ds, bHasValidTime := v, bDateTimeUpdated := u\<rparr>
   = \<lparr>bHasValidTime = v, bDateTimeUpdated = u, Year = y, Month = mo, Day = da, Hour = h,
      Minute = mi, DOW = dw, DST = ds\<rparr>"
  by (cases d) simp

lemma DecodeFrame_on_valid_frame:
  assumes "fst (ValidateBCD (A_bits s) (B_bits s))"
  shows "DecodeFrame s = Inr (True, ClientEventNotify MSF_EVENT_DATETIME_UPDATED
           (s\<lparr>LocalDateTime := frame_DateTime (A_bits s) (B_bits s),
              client_mem := (case pClientDateTime s of
                               Some p \<Rightarrow> (client_mem s)(p := frame_DateTime (A_bits s) (B_bits s))
                             | None \<Rightarrow> client_mem s)\<rparr>))"
  using assms
  by (cases "pClientDateTime s")
     (simp_all add: DecodeFrame_def ExtractBCD_calls bind_fault_def frame_DateTime_def Let_def
       all_fields_assigned)

text \<open>
  Claim C4. For a frame that passes validation, \<^verbatim>\<open>DecodeFrame\<close> returns true; each of the
  seven calls of \<^verbatim>\<open>ExtractBCD\<close> (Year from A17..A24, Month from A25..A29, Day from
  A30..A35, DOW from A36..A38, Hour from A39..A44, Minute from A45..A51, DST from B58)
  returns and its result is the field stored; both flags are set; the whole structure is
  copied to the client's buffer when one is registered; and
  \<^verbatim>\<open>ClientEventNotify(MSF_EVENT_DATETIME_UPDATED)\<close> is called last.
\<close>

theorem DecodeFrame_valid:
  assumes "fst (ValidateBCD (A_bits s) (B_bits s))"
  shows "\<exists>d. ExtractBCD (A_bits s) 17 24 = Some (Year d)
      \<and> ExtractBCD (A_bits s) 25 29 = Some (Month d)
      \<and> ExtractBCD (A_bits s) 30 35 = Some (Day d)
      \<and> ExtractBCD (A_bits s) 36 38 = Some (DOW d)
      \<and> ExtractBCD (A_bits s) 39 44 = Some (Hour d)
      \<and> ExtractBCD (A_bits s) 45 51 = Some (Minute d)
      \<and> ExtractBCD (B_bits s) 58 58 = Some (DST d)
      \<and> bHasValidTime d \<and> bDateTimeUpdated d
      \<and> DecodeFrame s = Inr (True, ClientEventNotify MSF_EVENT_DATETIME_UPDATED
            (s\<lparr>LocalDateTime := d,
               client_mem := (case pClientDateTime s of
                                Some p \<Rightarrow> (client_mem s)(p := d)
                              | None \<Rightarrow> client_mem s)\<rparr>))"
proof (intro exI conjI)
  show "DecodeFrame s = Inr (True, ClientEventNotify MSF_EVENT_DATETIME_UPDATED
            (s\<lparr>LocalDateTime := frame_DateTime (A_bits s) (B_bits s),
               client_mem := (case pClientDateTime s of
                                Some p \<Rightarrow> (client_mem s)(p := frame_DateTime (A_bits s) (B_bits s))
                              | None \<Rightarrow> client_mem s)\<rparr>))"
    by (rule DecodeFrame_on_valid_frame [OF assms])
qed (simp_all add: frame_DateTime_def ExtractBCD_sum)

lemma scenario_valid: "fst (ValidateBCD (A_bits scenario_state) (B_bits scenario_state))"
  by (simp add: scenario_state_def power_on_def ValidateBCD_def ValidateBCD_loop.simps
      CheckOddParity_def CheckOddParity_loop.simps getBit_def A_scenario_def B_scenario_def)

lemma scenario_fields:
  "ExtractBCD A_scenario 17 24 = Some 24" "ExtractBCD A_scenario 25 29 = Some 5"
  "ExtractBCD A_scenario 30 35 = Some 28" "ExtractBCD A_scenario 36 38 = Some 2"
  "ExtractBCD A_scenario 39 44 = Some 14" "ExtractBCD A_scenario 45 51 = Some 37"
  "ExtractBCD B_scenario 58 58 = Some 0"
  by (simp_all add: ExtractBCD_def ExtractBCD_loop.simps getBit_def A_scenario_def
      B_scenario_def BCD_def)

text \<open>
  The frame of scenario A decodes to 24, 5, 28, day of week 2, 14:37, DST 0; the buffer at
  address 0 receives the structure and the callback one call.
\<close>

theorem DecodeFrame_valid_witness:
  "\<exists>s'. DecodeFrame scenario_state = Inr (True, s')
     \<and> LocalDateTime s' = \<lparr>bHasValidTime = True, bDateTimeUpdated = True, Year = 24,
          Month = 5, Day = 28, Hour = 14, Minute = 37, DOW = 2, DST = 0\<rparr>
     \<and> client_mem s' 0 = LocalDateTime s'
     \<and> callback_calls s' = [MSF_EVENT_DATETIME_UPDATED]"
proof -
  from DecodeFrame_valid [OF scenario_valid] obtain d where
    f: "ExtractBCD (A_bits scenario_state) 17 24 = Some (Year d)"
      "ExtractBCD (A_bits scenario_state) 25 29 = Some (Month d)"
      "ExtractBCD (A_bits scenario_state) 30 35 = Some (Day d)"
      "ExtractBCD (A_bits scenario_state) 36 38 = Some (DOW d)"
      "ExtractBCD (A_bits scenario_state) 39 44 = Some (Hour d)"
      "ExtractBCD (A_bits scenario_state) 45 51 = Some (Minute d)"
      "ExtractBCD (B_bits scenario_state) 58 58 = Some (DST d)"
      "bHasValidTime d" "bDateTimeUpdated d"
    and r: "DecodeFrame scenario_state = Inr (True, ClientEventNotify MSF_EVENT_DATETIME_UPDATED
            (scenario_state\<lparr>LocalDateTime := d,
               client_mem := (case pClientDateTime scenario_state of
                                Some p \<Rightarrow> (client_mem scenario_state)(p := d)
                              | None \<Rightarrow> client_mem scenario_state)\<rparr>))"
    by blast
  have ab: "A_bits scenario_state = A_scenario" "B_bits scenario_state = B_scenario"
    by (simp_all add: scenario_state_def)
  from f have d: "d = \<lparr>bHasValidTime = True, bDateTimeUpdated = True, Year = 24,
          Month = 5, Day = 28, Hour = 14, Minute = 37, DOW = 2, DST = 0\<rparr>"
    unfolding ab scenario_fields by (cases d) simp
  show ?thesis
    unfolding r by (simp add: d ClientEventNotify_def scenario_state_def power_on_def)
qed

text \<open>
  Claim C6. For a frame that fails validation, \<^verbatim>\<open>DecodeFrame\<close> returns false and leaves
  every variable as it was: \<^verbatim>\<open>LocalDateTime\<close> with its two flags, the client's buffer,
  and the calls made to the callback (no notification is requested).
\<close>

theorem DecodeFrame_invalid:
  assumes "\<not> fst (ValidateBCD (A_bits s) (B_bits s))"
  shows "DecodeFrame s = Inr (False, s)"
  using assms by (simp add: DecodeFrame_def)

lemma subscriber_frame_invalid:
  "\<not> fst (ValidateBCD (A_bits subscriber_state) (B_bits subscriber_state))"
  by (simp add: subscriber_state_def MSF_EnableEventNotifications_def MSF_InitDecoder_def
      power_on_def ValidateBCD_def ValidateBCD_loop.simps getBit_def)

text \<open>
  The zeroed frame of a subscribed client with a registered buffer (A53 is clear) is
  rejected and nothing changes.
\<close>

theorem DecodeFrame_invalid_witness:
  "DecodeFrame subscriber_state = Inr (False, subscriber_state)"
  by (rule DecodeFrame_invalid [OF subscriber_frame_invalid])

section \<open>Runs of the edge handler\<close>

lemma GetWidth_numerals:
  "GetWidth 0 = eWidth_INVALID" "GetWidth 100 = eWidth_100" "GetWidth 500 = eWidth_500"
  "GetWidth 900 = eWidth_900" "GetWidth 1000 = eWidth_INVALID"
  by (simp_all add: GetWidth_def c_abs_def PULSE_MARGIN_def)

lemma zeros8: "replicate 8 (0 :: u8) = [0, 0, 0, 0, 0, 0, 0, 0]"
  by (simp add: numeral_eq_Suc)

lemma run_append:
  "run s (xs @ ys) = bind_fault (run s xs) (\<lambda>s'. run s' ys)"
  by (induction xs arbitrary: s) (auto simp: bind_fault_def split: sum.splits)

lemma run_sync_edges:
  "run (power_on mem) sync_edges =
     Inr ((power_on mem)\<lparr>bSyncedFlag := True, bHalfSync := True, bResyncNeeded := False,
           T_LastOnStart := 1000, T_LastOffStart := 1500, T_CellStart := 1500,
           eLastOnWidth := eWidth_500, eLastOffWidth := eWidth_500\<rparr>)"
  by (simp add: sync_edges_def power_on_def HandleCarrierEvent_def HandleCarrierEvent_dispatch_def
      HandleCarrierEvent_ON_def HandleCarrierEvent_OFF_def HandleCarrierEvent_resync_def
      ClientEventNotify_def bind_fault_def CARRIER_ON_def CARRIER_OFF_def GetWidth_numerals
      Let_def)

lemma setBit_zeros:
  "bitnum < 64 \<Longrightarrow> setBit (replicate 8 0) bitnum False = Inr (replicate 8 0)"
proof -
  assume "bitnum < 64"
  then have "drop_bit 3 bitnum < 8"
    by (simp add: drop_bit_eq_div)
  then show ?thesis
    by (simp add: setBit_def Let_def list_eq_iff_nth_eq nth_list_update)
qed

lemma setBit_past_end:
  "setBit (replicate 8 0) 64 bSet = Inl (OutOfBounds 8)"
  by (simp add: setBit_def Let_def drop_bit_eq_div)

lemma zero_cell_step:
  assumes "bSyncedFlag s" "\<not> bResyncNeeded s" "T_CellStart s = c" "T_LastOffStart s = c"
    "nBitNum s < 64" "A_bits s = replicate 8 0" "B_bits s = replicate 8 0"
  shows "run s [(CARRIER_ON, c + 100), (CARRIER_OFF, c + 1000)] =
     Inr (s\<lparr>T_LastOnStart := c + 100, eLastOffWidth := eWidth_100,
            T_LastOffStart := c + 1000, eLastOnWidth := eWidth_900,
            nBitNum := nBitNum s + 1, T_CellStart := c + 1000\<rparr>)"
  using assms
  by (simp add: HandleCarrierEvent_def HandleCarrierEvent_dispatch_def
      HandleCarrierEvent_ON_def HandleCarrierEvent_OFF_def setBit_A_def setBit_B_def
      bind_fault_def CARRIER_ON_def CARRIER_OFF_def GetWidth_numerals setBit_zeros Let_def)


lemma zero_cells_run:
  "in_zero_frame s c k \<Longrightarrow> k + n \<le> 64 \<Longrightarrow>
     \<exists>s'. run s (zero_cells n c) = Inr s' \<and> in_zero_frame s' (c + 1000 * of_nat n) (k + n)"
proof (induction n arbitrary: s c k)
  case 0
  then show ?case by simp
next
  case (Suc n)
  let ?s1 = "s\<lparr>T_LastOnStart := c + 100, eLastOffWidth := eWidth_100,
            T_LastOffStart := c + 1000, eLastOnWidth := eWidth_900,
            nBitNum := nBitNum s + 1, T_CellStart := c + 1000\<rparr>"
  from Suc.prems have step: "run s [(CARRIER_ON, c + 100), (CARRIER_OFF, c + 1000)] = Inr ?s1"
    by (intro zero_cell_step) (simp_all add: in_zero_frame_def)
  from Suc.prems have "in_zero_frame ?s1 (c + 1000) (Suc k)"
    by (simp add: in_zero_frame_def)
  from Suc.IH [OF this] Suc.prems(2) obtain s' where
    s': "run ?s1 (zero_cells n (c + 1000)) = Inr s'"
      "in_zero_frame s' (c + 1000 + 1000 * of_nat n) (Suc k + n)"
    by auto
  have "run s (zero_cells (Suc n) c) =
      bind_fault (run s [(CARRIER_ON, c + 100), (CARRIER_OFF, c + 1000)])
        (\<lambda>s'. run s' (zero_cells n (c + 1000)))"
    using run_append [of s "[(CARRIER_ON, c + 100), (CARRIER_OFF, c + 1000)]"] by simp
  with step s' show ?case
    by (simp add: bind_fault_def algebra_simps)
qed

lemma synced_in_zero_frame:
  "\<exists>s. run (power_on mem) sync_edges = Inr s \<and> in_zero_frame s 1500 1"
  unfolding run_sync_edges by (simp add: in_zero_frame_def power_on_def)

lemma zero_frame_run:
  assumes "n \<le> 63"
  shows "\<exists>s. run (power_on mem) (sync_edges @ zero_cells n 1500) = Inr s
           \<and> in_zero_frame s (1500 + 1000 * of_nat n) (1 + n)"
proof -
  from synced_in_zero_frame obtain s0 where
    s0: "run (power_on mem) sync_edges = Inr s0" "in_zero_frame s0 1500 1"
    by blast
  from zero_cells_run [OF s0(2), of n] assms obtain s where
    "run s0 (zero_cells n 1500) = Inr s" "in_zero_frame s (1500 + 1000 * of_nat n) (1 + n)"
    by auto
  with s0 show ?thesis
    by (simp add: run_append bind_fault_def)
qed

lemma overrun_edge:
  assumes "in_zero_frame s c 64"
  shows "HandleCarrierEvent s CARRIER_ON (c + 100) = Inl (OutOfBounds 8)"
  using assms
  by (simp add: in_zero_frame_def HandleCarrierEvent_def HandleCarrierEvent_dispatch_def
      HandleCarrierEvent_ON_def setBit_A_def bind_fault_def CARRIER_ON_def CARRIER_OFF_def
      GetWidth_numerals setBit_past_end Let_def)

text \<open>
  Claim C9 says that every bit access of the edge handler uses a bit index of at most 63
  (byte index at most 7), also when cells keep arriving after the 59th without a SYNC.
  The code does not do this: the cursor is advanced by every cell and checked against
  nothing, so after program start, a SYNC and 63 cells of 100 ms off and 900 ms on, the
  carrier-on edge of the 64th cell calls \<^verbatim>\<open>setBit(A_bits, 64, false)\<close> and writes
  \<^verbatim>\<open>A_bits[8]\<close>, one byte past the array.
\<close>

theorem cursor_overruns_arrays:
  "run (power_on (\<lambda>p. zero_DateTime)) (sync_edges @ zero_cells 63 1500 @ [(CARRIER_ON, 64600)])
     = Inl (OutOfBounds 8)"
proof -
  from zero_frame_run [of 63 "\<lambda>p. zero_DateTime"] obtain s where
    s: "run (power_on (\<lambda>p. zero_DateTime)) (sync_edges @ zero_cells 63 1500) = Inr s"
      "in_zero_frame s 64500 64"
    by auto
  from overrun_edge [OF s(2)] have "HandleCarrierEvent s CARRIER_ON 64600 = Inl (OutOfBounds 8)"
    by simp
  with s(1) show ?thesis
    using run_append [of "power_on (\<lambda>p. zero_DateTime)" "sync_edges @ zero_cells 63 1500"
        "[(CARRIER_ON, 64600)]"]
    by (simp add: bind_fault_def)
qed

lemma run_reachable:
  "reachable s \<Longrightarrow> run s es = Inr s' \<Longrightarrow> reachable s'"
proof (induction es arbitrary: s)
  case Nil
  then show ?case by simp
next
  case (Cons e es)
  from Cons.prems(2) obtain s1 where
    s1: "HandleCarrierEvent s (fst e) (snd e) = Inr s1" "run s1 es = Inr s'"
    by (auto simp: bind_fault_def split: sum.splits)
  from Cons.prems(1) s1(1) have r: "reachable s1"
    by (rule reachable.edge)
  from r s1(2) show ?case
    by (rule Cons.IH)
qed

section \<open>Properties of the sync engine\<close>

lemma DecodeFrame_returns:
  "DecodeFrame s =
     Inr (if fst (ValidateBCD (A_bits s) (B_bits s))
          then (True, ClientEventNotify MSF_EVENT_DATETIME_UPDATED
                 (s\<lparr>LocalDateTime := frame_DateTime (A_bits s) (B_bits s),
                    client_mem := (case pClientDateTime s of
                        Some p \<Rightarrow> (client_mem s)(p := frame_DateTime (A_bits s) (B_bits s))
                      | None \<Rightarrow> client_mem s)\<rparr>))
          else (False, s))"
  using DecodeFrame_on_valid_frame [of s] by (simp add: DecodeFrame_def)

lemma ClientEventNotify_fields [simp]:
  "nBitNum (ClientEventNotify ev s) = nBitNum s"
  "bHalfSync (ClientEventNotify ev s) = bHalfSync s"
  "bSyncedFlag (ClientEventNotify ev s) = bSyncedFlag s"
  "bResyncNeeded (ClientEventNotify ev s) = bResyncNeeded s"
  "pfClientEventCallback (ClientEventNotify ev s) = pfClientEventCallback s"
  "ui32ClientEventMask (ClientEventNotify ev s) = ui32ClientEventMask s"
  "T_LastOffStart (ClientEventNotify ev s) = T_LastOffStart s"
  "A_bits (ClientEventNotify ev s) = A_bits s"
  "B_bits (ClientEventNotify ev s) = B_bits s"
  by (simp_all add: ClientEventNotify_def)




lemma resync_fields [simp]:
  "nBitNum (HandleCarrierEvent_resync s) = 1"
  "bHalfSync (HandleCarrierEvent_resync s) = False"
  "bSyncedFlag (HandleCarrierEvent_resync s) = False"
  "bResyncNeeded (HandleCarrierEvent_resync s) = False"
  "callback_calls (HandleCarrierEvent_resync s) =
     callback_calls (ClientEventNotify MSF_EVENT_SYNC_LOST s)"
  by (simp_all add: HandleCarrierEvent_resync_def Let_def)























lemma OFF_callback:
  assumes "HandleCarrierEvent_OFF s t = Inr s1"
  shows "pfClientEventCallback s1 = pfClientEventCallback s
       \<and> ui32ClientEventMask s1 = ui32ClientEventMask s"
  using assms
  apply (simp add: HandleCarrierEvent_OFF_def Let_def DecodeFrame_returns bind_fault_def
      setBit_A_def setBit_B_def
      split: eWidth.splits if_splits sum.splits)
  apply auto
  done

lemma ON_callback:
  assumes "HandleCarrierEvent_ON s t = Inr s1"
  shows "pfClientEventCallback s1 = pfClientEventCallback s
       \<and> ui32ClientEventMask s1 = ui32ClientEventMask s"
  using assms
  apply (simp add: HandleCarrierEvent_ON_def Let_def bind_fault_def
      setBit_A_def setBit_B_def
      split: eWidth.splits if_splits sum.splits)
  apply auto
  done

lemma dispatch_callback:
  assumes "HandleCarrierEvent_dispatch s event_level tick = Inr s1"
  shows "subscribed s1 ev = subscribed s ev"
  using assms OFF_callback [of s tick s1] ON_callback [of s tick s1]
  by (auto simp: HandleCarrierEvent_dispatch_def subscribed_def split: if_splits)

lemma resync_step:
  assumes "HandleCarrierEvent_dispatch s event_level tick = Inr s1" and "bResyncNeeded s1"
  shows "\<exists>s'. HandleCarrierEvent s event_level tick = Inr s'
      \<and> nBitNum s' = 1 \<and> \<not> bHalfSync s' \<and> \<not> bSyncedFlag s'
      \<and> callback_calls s' =
          callback_calls s1 @ (if subscribed s MSF_EVENT_SYNC_LOST then [MSF_EVENT_SYNC_LOST] else [])"
  using assms dispatch_callback [OF assms(1), of MSF_EVENT_SYNC_LOST]
  by (simp add: HandleCarrierEvent_def bind_fault_def ClientEventNotify_def subscribed_def)

lemma bad_on_width_triggers:
  assumes "GetWidth (tick - T_LastOnStart s) = eWidth_INVALID"
  shows "resync_triggered s CARRIER_OFF tick"
  using assms
  by (simp add: resync_triggered_def HandleCarrierEvent_dispatch_def HandleCarrierEvent_OFF_def
      Let_def)

lemma bad_on_offset_triggers:
  assumes "GetWidth (tick - T_CellStart s) = eWidth_INVALID"
  shows "resync_triggered s CARRIER_ON tick"
  using assms
  by (simp add: resync_triggered_def HandleCarrierEvent_dispatch_def HandleCarrierEvent_ON_def
      Let_def CARRIER_ON_def CARRIER_OFF_def)

lemma bad_frame_triggers:
  assumes "bHalfSync s" and "nBitNum s = 60"
    and "GetWidth (tick - T_LastOnStart s) = eWidth_500"
    and "\<not> fst (ValidateBCD (A_bits s) (B_bits s))"
  shows "resync_triggered s CARRIER_OFF tick"
  using assms
  by (simp add: resync_triggered_def HandleCarrierEvent_dispatch_def HandleCarrierEvent_OFF_def
      Let_def DecodeFrame_returns bind_fault_def)

lemmas handler_defs =
  HandleCarrierEvent_def HandleCarrierEvent_dispatch_def HandleCarrierEvent_ON_def
  HandleCarrierEvent_OFF_def HandleCarrierEvent_resync_def ClientEventNotify_def
  setBit_A_def setBit_B_def setBit_def bind_fault_def CARRIER_ON_def CARRIER_OFF_def Let_def

lemmas start_defs =
  subscriber_state_def MSF_EnableEventNotifications_def MSF_InitDecoder_def power_on_def

lemma GetWidth_more:
  "GetWidth 450 = eWidth_INVALID" "GetWidth 3950 = eWidth_INVALID" "GetWidth 1350 = eWidth_INVALID"
  by (simp_all add: GetWidth_def c_abs_def PULSE_MARGIN_def)

lemma run_mid_frame: "run subscriber_state mid_frame_edges = Inr mid_frame_state"
  by (simp add: mid_frame_edges_def mid_frame_state_def sync_edges_def start_defs handler_defs
      GetWidth_numerals drop_bit_eq_div zeros8)

lemma run_first_edged: "run subscriber_state [(CARRIER_ON, 0)] = Inr first_edged"
  by (simp add: first_edged_def start_defs handler_defs GetWidth_numerals)

lemma reachable_subscriber_state: "reachable subscriber_state"
  unfolding subscriber_state_def
  by (intro reachable.notifications reachable.init reachable.start)

lemma before_first_edge_subscriber_state: "before_first_edge subscriber_state"
  unfolding subscriber_state_def
  by (intro before_first_edge.notifications_set before_first_edge.init_called
      before_first_edge.power)

lemma zeros_invalid: "\<not> fst (ValidateBCD (replicate 8 0) (replicate 8 0))"
  by (simp add: ValidateBCD_def ValidateBCD_loop.simps getBit_def)

lemma minute_marker_on:
  assumes "in_zero_frame s c k"
  shows "HandleCarrierEvent s CARRIER_ON (c + 500)
           = Inr (s\<lparr>T_LastOnStart := c + 500, eLastOffWidth := eWidth_500\<rparr>)"
  using assms
  by (simp add: in_zero_frame_def HandleCarrierEvent_def HandleCarrierEvent_dispatch_def
      HandleCarrierEvent_ON_def bind_fault_def CARRIER_ON_def CARRIER_OFF_def
      GetWidth_numerals Let_def)

text \<open>
  Claim C7 as stated fails in its last part: a decoder that has never been SYNCED still
  delivers SYNC_LOST when an edge triggers a resync. After the first edge of a subscribed
  client, a carrier-off edge 450 ms later (no valid ON width) triggers a resync and the
  callback receives SYNC_LOST.
\<close>

theorem sync_lost_without_sync:
  "(case run subscriber_state [(CARRIER_ON, 0)] of
      Inr s \<Rightarrow> reachable s \<and> \<not> bSyncedFlag s \<and> resync_triggered s CARRIER_OFF 450
         \<and> (case HandleCarrierEvent s CARRIER_OFF 450 of
               Inr s' \<Rightarrow> callback_calls s' = callback_calls s @ [MSF_EVENT_SYNC_LOST]
             | Inl f \<Rightarrow> False)
    | Inl f \<Rightarrow> False)
   \<and> \<not> (\<forall>s event_level tick s'.
          reachable s \<and> resync_triggered s event_level tick
          \<and> HandleCarrierEvent s event_level tick = Inr s'
          \<and> callback_calls s' = callback_calls s @ [MSF_EVENT_SYNC_LOST]
          \<longrightarrow> bSyncedFlag s)"
proof -
  have r: "reachable first_edged"
    using run_reachable [OF reachable_subscriber_state run_first_edged] .
  have n: "\<not> bSyncedFlag first_edged"
    by (simp add: first_edged_def start_defs)
  have t: "resync_triggered first_edged CARRIER_OFF 450"
    by (simp add: resync_triggered_def first_edged_def start_defs handler_defs GetWidth_more)
  have h: "HandleCarrierEvent first_edged CARRIER_OFF 450
      = Inr (first_edged\<lparr>T_LastOffStart := 450, T_CellStart := 450,
               eLastOnWidth := eWidth_INVALID,
               callback_calls := [MSF_EVENT_SYNC_LOST, MSF_EVENT_SYNC_LOST]\<rparr>)"
    by (simp add: first_edged_def start_defs handler_defs GetWidth_more)
  have c: "callback_calls first_edged = [MSF_EVENT_SYNC_LOST]"
    by (simp add: first_edged_def)
  have "\<not> (reachable first_edged \<and> resync_triggered first_edged CARRIER_OFF 450
        \<and> HandleCarrierEvent first_edged CARRIER_OFF 450
            = Inr (first_edged\<lparr>T_LastOffStart := 450, T_CellStart := 450,
               eLastOnWidth := eWidth_INVALID,
               callback_calls := [MSF_EVENT_SYNC_LOST, MSF_EVENT_SYNC_LOST]\<rparr>)
        \<and> callback_calls (first_edged\<lparr>T_LastOffStart := 450, T_CellStart := 450,
               eLastOnWidth := eWidth_INVALID,
               callback_calls := [MSF_EVENT_SYNC_LOST, MSF_EVENT_SYNC_LOST]\<rparr>)
            = callback_calls first_edged @ [MSF_EVENT_SYNC_LOST]
        \<longrightarrow> bSyncedFlag first_edged)"
    using r n t h c by simp
  then have "\<not> (\<forall>s event_level tick s'.
          reachable s \<and> resync_triggered s event_level tick
          \<and> HandleCarrierEvent s event_level tick = Inr s'
          \<and> callback_calls s' = callback_calls s @ [MSF_EVENT_SYNC_LOST]
          \<longrightarrow> bSyncedFlag s)"
    by blast
  with r n t h c show ?thesis
    unfolding run_first_edged by simp
qed

text \<open>
  Claim C7, amended. For every edge that triggers a resync, the handler returns with the
  cursor reset to 1, half-sync cleared and SYNCED cleared, and SYNC_LOST is delivered to
  the listener whenever one is subscribed to it, whether or not the decoder was SYNCED
  before. A resync is triggered by a timing anomaly (an ON span, or an offset of a
  carrier-on edge from the cell start, that classifies as invalid) and by a frame that
  fails validation at the SYNC that completes it.
\<close>

theorem resync_clears_sync_state:
  "(resync_triggered s event_level tick \<longrightarrow>
      (\<exists>s1 s'. HandleCarrierEvent_dispatch s event_level tick = Inr s1
         \<and> HandleCarrierEvent s event_level tick = Inr s'
         \<and> nBitNum s' = 1 \<and> \<not> bHalfSync s' \<and> \<not> bSyncedFlag s'
         \<and> callback_calls s' =
             callback_calls s1
               @ (if subscribed s MSF_EVENT_SYNC_LOST then [MSF_EVENT_SYNC_LOST] else [])))
   \<and> (GetWidth (tick - T_LastOnStart s) = eWidth_INVALID
        \<longrightarrow> resync_triggered s CARRIER_OFF tick)
   \<and> (GetWidth (tick - T_CellStart s) = eWidth_INVALID
        \<longrightarrow> resync_triggered s CARRIER_ON tick)
   \<and> (bHalfSync s \<and> nBitNum s = 60 \<and> GetWidth (tick - T_LastOnStart s) = eWidth_500
        \<and> \<not> fst (ValidateBCD (A_bits s) (B_bits s))
        \<longrightarrow> resync_triggered s CARRIER_OFF tick)"
proof (intro conjI impI)
  assume "resync_triggered s event_level tick"
  then obtain s1 where "HandleCarrierEvent_dispatch s event_level tick = Inr s1" "bResyncNeeded s1"
    by (auto simp: resync_triggered_def split: sum.splits)
  from resync_step [OF this] this(1)
  show "\<exists>s1 s'. HandleCarrierEvent_dispatch s event_level tick = Inr s1
         \<and> HandleCarrierEvent s event_level tick = Inr s'
         \<and> nBitNum s' = 1 \<and> \<not> bHalfSync s' \<and> \<not> bSyncedFlag s'
         \<and> callback_calls s' =
             callback_calls s1
               @ (if subscribed s MSF_EVENT_SYNC_LOST then [MSF_EVENT_SYNC_LOST] else [])"
    by blast
qed (auto intro: bad_on_width_triggers bad_on_offset_triggers bad_frame_triggers)

text \<open>
  Mid-frame, an edge 450 ms after the cell start resyncs and the subscribed callback
  receives SYNC_LOST; so does a carrier-off edge after an ON span of 1350 ms. After a
  SYNC and 59 cells that left A53..A58 clear, the next SYNC finds the frame invalid and
  resyncs.
\<close>

theorem resync_clears_sync_state_witness:
  "(\<exists>s'. HandleCarrierEvent mid_frame_state CARRIER_ON 3950 = Inr s'
     \<and> nBitNum s' = 1 \<and> \<not> bHalfSync s' \<and> \<not> bSyncedFlag s'
     \<and> callback_calls s' = callback_calls mid_frame_state @ [MSF_EVENT_SYNC_LOST])
   \<and> resync_triggered mid_frame_state CARRIER_OFF 3950
   \<and> (\<exists>s s'. reachable s \<and> bSyncedFlag s \<and> nBitNum s = 60
      \<and> HandleCarrierEvent s CARRIER_OFF 61500 = Inr s'
      \<and> nBitNum s' = 1 \<and> \<not> bHalfSync s' \<and> \<not> bSyncedFlag s')"
proof (intro conjI)
  show "\<exists>s'. HandleCarrierEvent mid_frame_state CARRIER_ON 3950 = Inr s'
     \<and> nBitNum s' = 1 \<and> \<not> bHalfSync s' \<and> \<not> bSyncedFlag s'
     \<and> callback_calls s' = callback_calls mid_frame_state @ [MSF_EVENT_SYNC_LOST]"
  proof -
    have w: "GetWidth (3950 - T_CellStart mid_frame_state) = eWidth_INVALID"
      by (simp add: mid_frame_state_def GetWidth_more)
    from resync_clears_sync_state [of mid_frame_state CARRIER_ON 3950] w
    have t: "resync_triggered mid_frame_state CARRIER_ON 3950"
      by blast
    with resync_clears_sync_state [of mid_frame_state CARRIER_ON 3950] obtain s1 s' where
      r: "HandleCarrierEvent_dispatch mid_frame_state CARRIER_ON 3950 = Inr s1"
        "HandleCarrierEvent mid_frame_state CARRIER_ON 3950 = Inr s'"
        "nBitNum s' = 1" "\<not> bHalfSync s'" "\<not> bSyncedFlag s'"
        "callback_calls s' = callback_calls s1
           @ (if subscribed mid_frame_state MSF_EVENT_SYNC_LOST then [MSF_EVENT_SYNC_LOST] else [])"
      by blast
    have sub: "subscribed mid_frame_state MSF_EVENT_SYNC_LOST"
      by (simp add: subscribed_def mid_frame_state_def start_defs)
    have "HandleCarrierEvent_dispatch mid_frame_state CARRIER_ON 3950
        = Inr (mid_frame_state\<lparr>T_LastOnStart := 3950, eLastOffWidth := eWidth_INVALID,
                bResyncNeeded := True\<rparr>)"
      by (simp add: mid_frame_state_def start_defs handler_defs GetWidth_more)
    with r(1) have "callback_calls s1 = callback_calls mid_frame_state"
      by auto
    with r sub show ?thesis
      by simp
  qed
  have "GetWidth (3950 - T_LastOnStart mid_frame_state) = eWidth_INVALID"
    by (simp add: mid_frame_state_def GetWidth_more)
  with resync_clears_sync_state [of mid_frame_state _ 3950]
  show "resync_triggered mid_frame_state CARRIER_OFF 3950"
    by blast
  show "\<exists>s s'. reachable s \<and> bSyncedFlag s \<and> nBitNum s = 60
      \<and> HandleCarrierEvent s CARRIER_OFF 61500 = Inr s'
      \<and> nBitNum s' = 1 \<and> \<not> bHalfSync s' \<and> \<not> bSyncedFlag s'"
  proof -
    from zero_frame_run [of 59 "\<lambda>p. zero_DateTime"] obtain s0 where
      s0: "run (power_on (\<lambda>p. zero_DateTime)) (sync_edges @ zero_cells 59 1500) = Inr s0"
        "in_zero_frame s0 60500 60"
      by auto
    define s where "s = s0\<lparr>T_LastOnStart := 61000, eLastOffWidth := eWidth_500\<rparr>"
    from minute_marker_on [OF s0(2)] have on: "HandleCarrierEvent s0 CARRIER_ON 61000 = Inr s"
      by (simp add: s_def)
    have r: "reachable s"
      using run_reachable [OF reachable.start s0(1)] on by (rule reachable.edge)
    from s0(2) have f: "bSyncedFlag s" "nBitNum s = 60"
      and h: "bHalfSync s \<and> nBitNum s = 60 \<and> GetWidth (61500 - T_LastOnStart s) = eWidth_500
        \<and> \<not> fst (ValidateBCD (A_bits s) (B_bits s))"
      by (simp_all add: s_def in_zero_frame_def GetWidth_numerals zeros_invalid)
    from resync_clears_sync_state [of s CARRIER_OFF 61500] h
    have "resync_triggered s CARRIER_OFF 61500"
      by blast
    with resync_clears_sync_state [of s CARRIER_OFF 61500] r f show ?thesis
      by blast
  qed
qed

lemma before_first_edge_fields:
  "before_first_edge s \<Longrightarrow>
     bResyncNeeded s \<and> nBitNum s = 1 \<and> \<not> bHalfSync s \<and> \<not> bSyncedFlag s
     \<and> callback_calls s = []"
proof (induction rule: before_first_edge.induct)
  case (power mem)
  show ?case by (simp add: power_on_def)
next
  case (init_called s pdata)
  then show ?case by (cases pdata) (simp_all add: MSF_InitDecoder_def)
next
  case (notifications_set s cb enable_mask)
  then show ?case by (simp add: MSF_EnableEventNotifications_def)
next
  case (client_wrote s mem)
  then show ?case by simp
qed

lemma OFF_first:
  assumes "bResyncNeeded s" "nBitNum s = 1" "\<not> bHalfSync s" "\<not> bSyncedFlag s"
  shows "\<exists>s1. HandleCarrierEvent_OFF s tick = Inr s1 \<and> bResyncNeeded s1
           \<and> callback_calls s1 = callback_calls s"
  using assms
  by (cases "GetWidth (tick - T_LastOnStart s)")
     (simp_all add: HandleCarrierEvent_OFF_def Let_def)

lemma ON_first:
  assumes "bResyncNeeded s" "nBitNum s = 1" "\<not> bHalfSync s" "\<not> bSyncedFlag s"
  shows "\<exists>s1. HandleCarrierEvent_ON s tick = Inr s1 \<and> bResyncNeeded s1
           \<and> callback_calls s1 = callback_calls s"
  using assms
  by (cases "GetWidth (tick - T_CellStart s)")
     (simp_all add: HandleCarrierEvent_ON_def Let_def)

lemma dispatch_first:
  assumes "bResyncNeeded s" "nBitNum s = 1" "\<not> bHalfSync s" "\<not> bSyncedFlag s"
  shows "\<exists>s1. HandleCarrierEvent_dispatch s event_level tick = Inr s1 \<and> bResyncNeeded s1
           \<and> callback_calls s1 = callback_calls s"
  using OFF_first [OF assms, of tick] ON_first [OF assms, of tick] assms(1)
  by (simp add: HandleCarrierEvent_dispatch_def)

text \<open>
  Claim C10. \<^verbatim>\<open>bResyncNeeded\<close> starts true, so the first carrier edge handled after
  program start ends in a resync whatever its level and tick count: the handler returns,
  the decoder is unsynced with the cursor at 1 and half-sync cleared, and the callback
  has received exactly SYNC_LOST if a listener is subscribed to it, and nothing otherwise.
\<close>

theorem first_edge_resyncs:
  assumes "before_first_edge s"
  shows "\<exists>s'. HandleCarrierEvent s event_level tick = Inr s'
     \<and> \<not> bSyncedFlag s' \<and> nBitNum s' = 1 \<and> \<not> bHalfSync s'
     \<and> callback_calls s' =
         (if subscribed s MSF_EVENT_SYNC_LOST then [MSF_EVENT_SYNC_LOST] else [])"
proof -
  from before_first_edge_fields [OF assms]
  have f: "bResyncNeeded s" "nBitNum s = 1" "\<not> bHalfSync s" "\<not> bSyncedFlag s"
    and c: "callback_calls s = []"
    by simp_all
  from dispatch_first [OF f, of event_level tick] obtain s1 where
    s1: "HandleCarrierEvent_dispatch s event_level tick = Inr s1" "bResyncNeeded s1"
      "callback_calls s1 = callback_calls s"
    by blast
  from resync_step [OF s1(1) s1(2)] s1(3) c show ?thesis
    by auto
qed

text \<open>
  A first edge that asks for no resync by itself (carrier on 100 ms after tick 0) still
  resyncs, and the subscribed client receives SYNC_LOST.
\<close>

theorem first_edge_resyncs_witness:
  "\<exists>s'. HandleCarrierEvent subscriber_state CARRIER_ON 100 = Inr s'
     \<and> \<not> bSyncedFlag s' \<and> nBitNum s' = 1 \<and> \<not> bHalfSync s'
     \<and> callback_calls s' = [MSF_EVENT_SYNC_LOST]"
proof -
  have "subscribed subscriber_state MSF_EVENT_SYNC_LOST"
    by (simp add: subscribed_def start_defs)
  with first_edge_resyncs [OF before_first_edge_subscriber_state, of CARRIER_ON 100]
  show ?thesis
    by simp
qed

section \<open>Properties of the public API\<close>

text \<open>
  Claim C8 as stated fails: \<^verbatim>\<open>MSF_InitDecoder\<close> resets no sync state. Called on the
  decoder that is SYNCED with the cursor on bit 3, it leaves it SYNCED, half-synced and
  on bit 3.
\<close>

theorem init_keeps_sync_state:
  "(case run subscriber_state mid_frame_edges of
      Inr s \<Rightarrow> reachable s \<and> bSyncedFlag (MSF_InitDecoder (Some 0) s)
         \<and> bHalfSync (MSF_InitDecoder (Some 0) s) \<and> nBitNum (MSF_InitDecoder (Some 0) s) = 3
    | Inl f \<Rightarrow> False)
   \<and> \<not> (\<forall>s pdata. reachable s \<longrightarrow>
          \<not> bSyncedFlag (MSF_InitDecoder pdata s) \<and> \<not> bHalfSync (MSF_InitDecoder pdata s)
          \<and> nBitNum (MSF_InitDecoder pdata s) = 1)"
proof -
  have r: "reachable mid_frame_state"
    using run_reachable [OF reachable_subscriber_state run_mid_frame] .
  have f: "bSyncedFlag (MSF_InitDecoder (Some 0) mid_frame_state)"
    "bHalfSync (MSF_InitDecoder (Some 0) mid_frame_state)"
    "nBitNum (MSF_InitDecoder (Some 0) mid_frame_state) = 3"
    by (simp_all add: MSF_InitDecoder_def mid_frame_state_def)
  with r have "\<not> (reachable mid_frame_state \<longrightarrow>
          \<not> bSyncedFlag (MSF_InitDecoder (Some 0) mid_frame_state)
          \<and> \<not> bHalfSync (MSF_InitDecoder (Some 0) mid_frame_state)
          \<and> nBitNum (MSF_InitDecoder (Some 0) mid_frame_state) = 1)"
    by simp
  then have "\<not> (\<forall>s pdata. reachable s \<longrightarrow>
          \<not> bSyncedFlag (MSF_InitDecoder pdata s) \<and> \<not> bHalfSync (MSF_InitDecoder pdata s)
          \<and> nBitNum (MSF_InitDecoder pdata s) = 1)"
    by blast
  with r f show ?thesis
    unfolding run_mid_frame by simp
qed

text \<open>
  Claim C8, amended. \<^verbatim>\<open>MSF_InitDecoder\<close> leaves the sync state (SYNCED, half-sync, bit
  cursor) as it is; that state is SYNCED false, half-sync cleared and cursor 1 when no edge
  has been handled yet. With a non-null pointer it registers the buffer and zeroes the
  whole structure there, leaving the rest of the client's memory alone; with a null
  pointer it changes nothing (no buffer is registered by the call) and no error occurs.
\<close>

theorem MSF_InitDecoder_effect:
  "bSyncedFlag (MSF_InitDecoder pdata s) = bSyncedFlag s
   \<and> bHalfSync (MSF_InitDecoder pdata s) = bHalfSync s
   \<and> nBitNum (MSF_InitDecoder pdata s) = nBitNum s
   \<and> (before_first_edge s \<longrightarrow>
        \<not> bSyncedFlag (MSF_InitDecoder pdata s) \<and> \<not> bHalfSync (MSF_InitDecoder pdata s)
        \<and> nBitNum (MSF_InitDecoder pdata s) = 1)
   \<and> (\<forall>p. pdata = Some p \<longrightarrow>
        pClientDateTime (MSF_InitDecoder pdata s) = Some p
        \<and> client_mem (MSF_InitDecoder pdata s) p = zero_DateTime
        \<and> (\<forall>q. q \<noteq> p \<longrightarrow> client_mem (MSF_InitDecoder pdata s) q = client_mem s q))
   \<and> (pdata = None \<longrightarrow> MSF_InitDecoder pdata s = s)"
  using before_first_edge_fields [of s]
  by (cases pdata) (simp_all add: MSF_InitDecoder_def)

text \<open>
  On the mid-frame decoder a call with address 5 registers and zeroes that buffer and
  leaves address 6 alone, a call with a null pointer changes nothing; before the first
  edge the decoder is not SYNCED after the call.
\<close>

theorem MSF_InitDecoder_effect_witness:
  "pClientDateTime (MSF_InitDecoder (Some 5) mid_frame_state) = Some 5
   \<and> client_mem (MSF_InitDecoder (Some 5) mid_frame_state) 5 = zero_DateTime
   \<and> client_mem (MSF_InitDecoder (Some 5) mid_frame_state) 6 = client_mem mid_frame_state 6
   \<and> MSF_InitDecoder None mid_frame_state = mid_frame_state
   \<and> \<not> bSyncedFlag (MSF_InitDecoder (Some 0) subscriber_state)"
proof -
  have ne: "(6 :: nat) \<noteq> 5"
    by simp
  from MSF_InitDecoder_effect [of "Some 5" mid_frame_state]
    MSF_InitDecoder_effect [of None mid_frame_state]
    MSF_InitDecoder_effect [of "Some 0" subscriber_state] before_first_edge_subscriber_state ne
  show ?thesis
    by blast
qed

end
